theory Spec2Isabelle
  imports Complex_Main "HOL-Library.Sublist"
begin

section \<open>Data model\<close>

text \<open>
  Python exceptions are values. Only instances of \<^verbatim>\<open>Exception\<close> are modelled (the handler
  of \<^verbatim>\<open>get_advanced_topic_content\<close> is \<^verbatim>\<open>except Exception\<close>); a subclass is represented
  by the base class the handlers of \<^verbatim>\<open>main.py\<close> distinguish: an aiohttp
  \<^verbatim>\<open>ContentTypeError\<close> is a \<open>ClientError\<close>, a plain asyncio timeout is a \<open>TimeoutError\<close>.
  \<open>msg\<close> is what \<^verbatim>\<open>str(e)\<close> returns.
\<close>

datatype exn_class =
  ClientError | ValueError | JSONDecodeError | TimeoutError
  | RedisError | DatabaseError | KeyError | TypeError | OtherError

datatype exn = Exn (cls: exn_class) (msg: string)

text \<open>
  A decoded JSON document. \<open>JObj\<close> lists the items of the Python dict in insertion order;
  numbers are kept as integers, since no operation of the program computes with them.
\<close>

datatype json =
  JNull | JBool bool | JNum int | JStr string
  | JArr "json list" | JObj "(string \<times> json) list"

text \<open>
  A row of table \<^verbatim>\<open>topics\<close> (class \<^verbatim>\<open>Topic\<close>). Timestamps are microseconds since the epoch,
  the resolution of \<^verbatim>\<open>datetime\<close>.
\<close>

record topic =
  sector :: string
  content :: string
  further_reading :: string
  last_update :: int

text \<open>The response of an HTTP GET: the request raises, or a response arrives with its
  status and with what \<^verbatim>\<open>await response.json()\<close> gives (a document, or an exception).\<close>

datatype http_outcome = HttpRaises exn | HttpResponse nat "exn + json"

text \<open>The primitive operations on the store and on the cache that may raise.\<close>

datatype prim =
  CreateEngine | Acquire | SelectLastUpdate | SelectTopic | ScanTopics | UpsertTopic
  | RedisGet | RedisSetex

text \<open>Calls to the two network clients, recorded in the order they are made.\<close>

datatype client_call = RefreshCall string | EnrichmentCall string

text \<open>
  The world a request runs in. State: the global \<open>async_engine\<close> (\<open>False\<close> is
  \<^verbatim>\<open>None\<close>), the rows of \<^verbatim>\<open>topics\<close> in scan order, the Redis keys with their value and
  expiry instant, and the log of client calls. Environment: the clock, the exception a
  primitive raises (if any), what the two remote services answer for a sector (for the
  Enrichment Client, whose caller is missing from \<^verbatim>\<open>main.py\<close>: the serialised document,
  or \<open>None\<close> for a failure), and the library functions \<^verbatim>\<open>json.loads\<close> and
  \<^verbatim>\<open>json.dumps\<close>.
\<close>

record world =
  async_engine :: bool
  topics :: "topic list"
  cache :: "string \<Rightarrow> (string \<times> int) option"
  net_calls :: "client_call list"
  now :: int
  fault :: "prim \<Rightarrow> exn option"
  api_get :: "string \<Rightarrow> http_outcome"
  academic_get :: "string \<Rightarrow> string option"
  json_loads :: "string \<Rightarrow> exn + json"
  json_dumps :: "json \<Rightarrow> string"

section \<open>Actions: state passing with exceptions\<close>

type_synonym 'a action = "world \<Rightarrow> (exn + 'a) \<times> world"

definition ret :: "'a \<Rightarrow> 'a action" where
  "ret x w = (Inr x, w)"

definition raise :: "exn \<Rightarrow> 'a action" where
  "raise e w = (Inl e, w)"

definition then_do :: "'a action \<Rightarrow> ('a \<Rightarrow> 'b action) \<Rightarrow> 'b action" where
  "then_do m f w = (case m w of (Inl e, w') \<Rightarrow> (Inl e, w') | (Inr x, w') \<Rightarrow> f x w')"

definition prim_op :: "prim \<Rightarrow> unit action" where
  "prim_op p w = (case fault w p of Some e \<Rightarrow> (Inl e, w) | None \<Rightarrow> (Inr (), w))"

section \<open>Cache and store primitives\<close>

definition usec_per_sec :: int where
  "usec_per_sec = 1000000"

definition usec_per_day :: int where
  "usec_per_day = 86400 * 1000000"

text \<open>\<^verbatim>\<open>redis_client.get(key)\<close>: an entry past its expiry is absent.\<close>

definition redis_get :: "string \<Rightarrow> string option action" where
  "redis_get key = then_do (prim_op RedisGet) (\<lambda>_ w.
     (Inr (case cache w key of
             None \<Rightarrow> None
           | Some (v, expiry) \<Rightarrow> if now w < expiry then Some v else None), w))"

text \<open>\<^verbatim>\<open>redis_client.setex(key, ttl, value)\<close>, the TTL in seconds.\<close>

definition redis_setex :: "string \<Rightarrow> int \<Rightarrow> string \<Rightarrow> unit action" where
  "redis_setex key ttl v = then_do (prim_op RedisSetex) (\<lambda>_ w.
     (Inr (), w\<lparr>cache := (cache w)(key \<mapsto> (v, now w + ttl * usec_per_sec))\<rparr>))"

text \<open>\<^verbatim>\<open>init_async_db\<close> and \<^verbatim>\<open>get_engine\<close>. The module-level binding of the global
  \<^verbatim>\<open>async_engine\<close> is not part of \<^verbatim>\<open>main.py\<close> as listed (nor is the import of
  \<^verbatim>\<open>datetime\<close>); the global is taken as bound, to \<^verbatim>\<open>None\<close> or to an engine.\<close>

definition init_async_db :: "unit action" where
  "init_async_db = then_do (prim_op CreateEngine) (\<lambda>_ w. (Inr (), w\<lparr>async_engine := True\<rparr>))"

definition get_engine :: "unit action" where
  "get_engine w = (if \<not> async_engine w then init_async_db w else (Inr (), w))"

text \<open>\<^verbatim>\<open>fetchone()\<close> of a \<^verbatim>\<open>SELECT ... WHERE sector = :sector\<close>: the first matching row.\<close>

definition select_by_sector :: "prim \<Rightarrow> string \<Rightarrow> topic option action" where
  "select_by_sector p s = then_do (prim_op p) (\<lambda>_ w.
     (Inr (find (\<lambda>t. sector t = s) (topics w)), w))"

section \<open>Freshness policy\<close>

text \<open>\<^verbatim>\<open>timedelta.days\<close> of \<open>a - b\<close>: the whole days, rounded down.\<close>

definition timedelta_days :: "int \<Rightarrow> int \<Rightarrow> int" where
  "timedelta_days a b = (a - b) div usec_per_day"

definition should_fetch_from_api :: "string \<Rightarrow> bool action" where
  "should_fetch_from_api s = then_do (select_by_sector SelectLastUpdate s) (\<lambda>row w.
     (Inr (case row of
             None \<Rightarrow> True
           | Some t \<Rightarrow> timedelta_days (now w) (last_update t) > 7), w))"

section \<open>External refresh\<close>

fun digit_char :: "nat \<Rightarrow> char" where
  "digit_char n = char_of (48 + n)"

function str_nat :: "nat \<Rightarrow> string" where
  "str_nat n = (if n < 10 then [digit_char n] else str_nat (n div 10) @ [digit_char (n mod 10)])"
  by pat_completeness auto
termination
  by (relation "measure id") auto

text \<open>The handler of \<^verbatim>\<open>fetch_api_data\<close>:
  \<^verbatim>\<open>except (ClientError, ValueError, json.JSONDecodeError)\<close> returns \<^verbatim>\<open>None\<close>.\<close>

definition fetch_handled :: "exn \<Rightarrow> bool" where
  "fetch_handled e = (cls e = ClientError \<or> cls e = ValueError \<or> cls e = JSONDecodeError)"

definition fetch_except :: "exn \<Rightarrow> json option action" where
  "fetch_except e = (if fetch_handled e then ret None else raise e)"

definition api_key :: "string \<Rightarrow> string" where
  "api_key s = ''api_'' @ s"

definition academic_key :: "string \<Rightarrow> string" where
  "academic_key s = ''academic_'' @ s"

definition fetch_api_data :: "string \<Rightarrow> json option action" where
  "fetch_api_data s w0 =
     (let w = w0\<lparr>net_calls := net_calls w0 @ [RefreshCall s]\<rparr> in
      case api_get w s of
        HttpRaises e \<Rightarrow> fetch_except e w
      | HttpResponse status body \<Rightarrow>
          if status = 200 then
            (case body of
               Inl e \<Rightarrow> fetch_except e w
             | Inr data \<Rightarrow>
                 (case redis_setex (api_key s) 3600 (json_dumps w data) w of
                    (Inl e, w') \<Rightarrow> fetch_except e w'
                  | (Inr _, w') \<Rightarrow> (Inr (Some data), w')))
          else fetch_except
                 (Exn ValueError (''API returned status code '' @ str_nat status)) w)"

text \<open>
  Modelled from the spec: the upsert of the Topic Store, which \<^verbatim>\<open>main.py\<close> does not
  contain ("upsert the Topic Store: overwrite content/further_reading, set last_update =
  now"; a Topic is "created on first successful external refresh for a sector").
\<close>

definition upsert_topic :: "string \<Rightarrow> string \<Rightarrow> string \<Rightarrow> unit action" where
  "upsert_topic s c fr = then_do (prim_op UpsertTopic) (\<lambda>_ w.
     (Inr (), w\<lparr>topics :=
        (if find (\<lambda>t. sector t = s) (topics w) = None
         then topics w @ [\<lparr>sector = s, content = c, further_reading = fr, last_update = now w\<rparr>]
         else map (\<lambda>t. if sector t = s
                         then t\<lparr>content := c, further_reading := fr, last_update := now w\<rparr>
                         else t) (topics w))\<rparr>))"

text \<open>
  Modelled from the spec: the payload of the External Refresh Client is
  \<^verbatim>\<open>{content, further_reading}\<close>; a schema-mismatched payload is a \<^verbatim>\<open>MalformedResponse\<close>.
\<close>

definition payload_fields :: "json \<Rightarrow> (string \<times> string) option" where
  "payload_fields data =
     (case data of
        JObj kvs \<Rightarrow>
          (case (map_of kvs ''content'', map_of kvs ''further_reading'') of
             (Some (JStr c), Some (JStr fr)) \<Rightarrow> Some (c, fr)
           | _ \<Rightarrow> None)
      | _ \<Rightarrow> None)"

text \<open>
  Modelled from the spec: the failures of a refresh that "never fail the overall
  request", which the missing \<^verbatim>\<open>update_topic_from_api\<close> has to absorb. A
  \<^verbatim>\<open>TransportFailure\<close> is "network/timeout talking to External or Enrichment Client", a
  \<^verbatim>\<open>MalformedResponse\<close> a "non-JSON or schema-mismatched payload".
\<close>

definition refresh_failure :: "exn \<Rightarrow> bool" where
  "refresh_failure e =
     (cls e = ClientError \<or> cls e = TimeoutError \<or> cls e = ValueError \<or> cls e = JSONDecodeError)"

text \<open>
  Modelled from the spec: \<^verbatim>\<open>update_topic_from_api\<close>, called by
  \<^verbatim>\<open>get_advanced_topic_content\<close> and missing from \<^verbatim>\<open>main.py\<close>. "Invoke External Refresh
  Client for sector. On success, upsert the Topic Store [...]. On failure (network error,
  non-success status, malformed payload), log and proceed with whatever is currently
  stored." Any other exception that \<^verbatim>\<open>fetch_api_data\<close> lets through, and a failure of the
  store, propagate.
\<close>

definition update_topic_from_api :: "string \<Rightarrow> unit action" where
  "update_topic_from_api s w =
     (case fetch_api_data s w of
        (Inl e, w') \<Rightarrow> if refresh_failure e then (Inr (), w') else (Inl e, w')
      | (Inr None, w') \<Rightarrow> (Inr (), w')
      | (Inr (Some d), w') \<Rightarrow>
          (case payload_fields d of
             None \<Rightarrow> (Inr (), w')
           | Some (c, fr) \<Rightarrow> upsert_topic s c fr w'))"

section \<open>Enrichment\<close>

text \<open>
  Modelled from the spec: \<^verbatim>\<open>fetch_academic_resources\<close>, called by
  \<^verbatim>\<open>get_advanced_topic_content\<close> and missing from \<^verbatim>\<open>main.py\<close>. "On miss, call Enrichment
  Client, and on success cache the result for a TTL window (1 hour)"; a failure of the
  client is "downgraded to proceed without this data". The caller passes the result to
  \<^verbatim>\<open>json.loads\<close>, so the result is the serialised document.
\<close>

definition fetch_academic_resources :: "string \<Rightarrow> string option action" where
  "fetch_academic_resources s w0 =
     (let w = w0\<lparr>net_calls := net_calls w0 @ [EnrichmentCall s]\<rparr> in
      case academic_get w s of
        None \<Rightarrow> (Inr None, w)
      | Some text \<Rightarrow>
          then_do (redis_setex (academic_key s) 3600 text) (\<lambda>_. ret (Some text)) w)"

text \<open>\<^verbatim>\<open>item['summary']\<close>, with the exception CPython 3.11 raises where the item is not a
  dict that has the key.\<close>

fun subscript_summary :: "json \<Rightarrow> exn + json" where
  "subscript_summary (JObj kvs) =
     (case map_of kvs ''summary'' of
        None \<Rightarrow> Inl (Exn KeyError (CHR 0x27 # ''summary'' @ [CHR 0x27]))
      | Some v \<Rightarrow> Inr v)"
| "subscript_summary (JArr xs) =
     Inl (Exn TypeError ''list indices must be integers or slices, not str'')"
| "subscript_summary (JStr s) =
     Inl (Exn TypeError (''string indices must be integers, not '' @ CHR 0x27 # ''str'' @ [CHR 0x27]))"
| "subscript_summary (JNum n) =
     Inl (Exn TypeError (CHR 0x27 # ''int'' @ CHR 0x27 # '' object is not subscriptable''))"
| "subscript_summary (JBool b) =
     Inl (Exn TypeError (CHR 0x27 # ''bool'' @ CHR 0x27 # '' object is not subscriptable''))"
| "subscript_summary JNull =
     Inl (Exn TypeError (CHR 0x27 # ''NoneType'' @ CHR 0x27 # '' object is not subscriptable''))"

text \<open>\<^verbatim>\<open>for item in academic_data\<close>: a list gives its elements, a dict its keys, a string
  its characters; anything else is not iterable.\<close>

fun iter_items :: "json \<Rightarrow> exn + json list" where
  "iter_items (JArr xs) = Inr xs"
| "iter_items (JObj kvs) = Inr (map (\<lambda>kv. JStr (fst kv)) kvs)"
| "iter_items (JStr s) = Inr (map (\<lambda>c. JStr [c]) s)"
| "iter_items (JNum n) =
     Inl (Exn TypeError (CHR 0x27 # ''int'' @ CHR 0x27 # '' object is not iterable''))"
| "iter_items (JBool b) =
     Inl (Exn TypeError (CHR 0x27 # ''bool'' @ CHR 0x27 # '' object is not iterable''))"
| "iter_items JNull =
     Inl (Exn TypeError (CHR 0x27 # ''NoneType'' @ CHR 0x27 # '' object is not iterable''))"

text \<open>The list comprehension \<^verbatim>\<open>[item['summary'] for item in ...]\<close>: the first item that
  raises ends it.\<close>

fun collect_summaries :: "json list \<Rightarrow> exn + json list" where
  "collect_summaries [] = Inr []"
| "collect_summaries (x # xs) =
     (case subscript_summary x of
        Inl e \<Rightarrow> Inl e
      | Inr v \<Rightarrow> (case collect_summaries xs of Inl e \<Rightarrow> Inl e | Inr vs \<Rightarrow> Inr (v # vs)))"

fun type_name :: "json \<Rightarrow> string" where
  "type_name JNull = ''NoneType''"
| "type_name (JBool b) = ''bool''"
| "type_name (JNum n) = ''int''"
| "type_name (JStr s) = ''str''"
| "type_name (JArr xs) = ''list''"
| "type_name (JObj kvs) = ''dict''"

text \<open>\<^verbatim>\<open>"\n".join(...)\<close> accepts strings only; \<open>i\<close> is the position of the item.\<close>

fun str_items :: "nat \<Rightarrow> json list \<Rightarrow> exn + string list" where
  "str_items i [] = Inr []"
| "str_items i (JStr s # xs) =
     (case str_items (Suc i) xs of Inl e \<Rightarrow> Inl e | Inr ss \<Rightarrow> Inr (s # ss))"
| "str_items i (x # xs) =
     Inl (Exn TypeError (''sequence item '' @ str_nat i @ '': expected str instance, ''
                          @ type_name x @ '' found''))"

fun join :: "string \<Rightarrow> string list \<Rightarrow> string" where
  "join sep [] = []"
| "join sep [x] = x"
| "join sep (x # y # ys) = x @ sep @ join sep (y # ys)"

definition newline :: string where
  "newline = [CHR 0x0A]"

text \<open>\<^verbatim>\<open>"\n".join([item['summary'] for item in academic_data])\<close>.\<close>

definition joined_summaries :: "json \<Rightarrow> exn + string" where
  "joined_summaries academic_data =
     (case iter_items academic_data of
        Inl e \<Rightarrow> Inl e
      | Inr items \<Rightarrow>
          (case collect_summaries items of
             Inl e \<Rightarrow> Inl e
           | Inr vs \<Rightarrow>
               (case str_items 0 vs of
                  Inl e \<Rightarrow> Inl e
                | Inr ss \<Rightarrow> Inr (join newline ss))))"

definition lift :: "exn + 'a \<Rightarrow> 'a action" where
  "lift r w = (r, w)"

text \<open>Lines 122 to 127 of \<^verbatim>\<open>get_advanced_topic_content\<close>: the text appended to
  \<^verbatim>\<open>context\<close> after the first newline, or \<open>None\<close> when \<^verbatim>\<open>academic_data\<close> is \<^verbatim>\<open>None\<close> or
  empty.\<close>

definition enrichment :: "string \<Rightarrow> string option action" where
  "enrichment s =
     then_do (redis_get (academic_key s)) (\<lambda>cached.
     then_do (case cached of
                None \<Rightarrow> fetch_academic_resources s
              | Some v \<Rightarrow> ret (Some v)) (\<lambda>academic_data.
     case academic_data of
       None \<Rightarrow> ret None
     | Some text \<Rightarrow>
         if text = [] then ret None
         else then_do (\<lambda>w. (json_loads w text, w)) (\<lambda>doc.
              then_do (lift (joined_summaries doc)) (\<lambda>lines. ret (Some lines)))))"

definition extend_context :: "string \<Rightarrow> string option \<Rightarrow> string" where
  "extend_context context lines =
     (case lines of None \<Rightarrow> context | Some l \<Rightarrow> context @ newline @ l)"

text \<open>Lines 120 to 127: the value of \<^verbatim>\<open>context\<close>.\<close>

definition build_context :: "string \<Rightarrow> bool \<Rightarrow> topic \<Rightarrow> string action" where
  "build_context s offline_mode t =
     (if \<not> offline_mode
      then then_do (enrichment s) (\<lambda>lines. ret (extend_context (content t) lines))
      else ret (content t))"

section \<open>Retrieval orchestrator\<close>

definition no_information :: string where
  "no_information =
     ''I'' @ CHR 0x27 # ''m sorry, I don'' @ CHR 0x27 # ''t have information on that sector.''"

text \<open>The placeholder for the NLP model: the answer does not depend on its arguments.\<close>

definition nlp_answer :: "string \<Rightarrow> string \<Rightarrow> string" where
  "nlp_answer context question = ''Answer based on the context''"

text \<open>Lines 112 and 113: the refresh, skipped when offline or fresh.\<close>

definition refresh_if_stale :: "string \<Rightarrow> bool \<Rightarrow> unit action" where
  "refresh_if_stale s offline_mode =
     (if \<not> offline_mode
      then then_do (should_fetch_from_api s) (\<lambda>stale.
             if stale then update_topic_from_api s else ret ())
      else ret ())"

text \<open>Lines 115 to 127: the topic is read again; the result is the row and the value of
  \<^verbatim>\<open>context\<close> built from it, or \<open>None\<close> when the sector has no row.\<close>

definition context_from_store :: "string \<Rightarrow> bool \<Rightarrow> (string \<times> topic) option action" where
  "context_from_store s offline_mode =
     then_do (select_by_sector SelectTopic s) (\<lambda>row.
       case row of
         None \<Rightarrow> ret None
       | Some t \<Rightarrow>
           then_do (build_context s offline_mode t) (\<lambda>context. ret (Some (context, t))))"

text \<open>The two \<^verbatim>\<open>return\<close> statements of the body, lines 118 and 130.\<close>

definition respond :: "string \<Rightarrow> (string \<times> topic) option \<Rightarrow> string \<times> string option" where
  "respond question r =
     (case r of
        None \<Rightarrow> (no_information, None)
      | Some (context, t) \<Rightarrow> (nlp_answer context question, Some (further_reading t)))"

text \<open>Lines 115 to 130: the topic is read again and answered from.\<close>

definition answer_from_store ::
  "string \<Rightarrow> string \<Rightarrow> bool \<Rightarrow> (string \<times> string option) action" where
  "answer_from_store question s offline_mode =
     then_do (context_from_store s offline_mode) (\<lambda>r. ret (respond question r))"

text \<open>Lines 110 to 127: the body of the \<^verbatim>\<open>try\<close> up to its \<^verbatim>\<open>return\<close>, with the row
  that was read and the value of \<^verbatim>\<open>context\<close> as result.\<close>

definition request_context :: "string \<Rightarrow> bool \<Rightarrow> (string \<times> topic) option action" where
  "request_context s offline_mode =
     then_do get_engine (\<lambda>_.
     then_do (prim_op Acquire) (\<lambda>_.
     then_do (refresh_if_stale s offline_mode) (\<lambda>_.
     context_from_store s offline_mode)))"

text \<open>The body of the \<^verbatim>\<open>try\<close> of \<^verbatim>\<open>get_advanced_topic_content\<close>.\<close>

definition content_request ::
  "string \<Rightarrow> string \<Rightarrow> bool \<Rightarrow> (string \<times> string option) action" where
  "content_request question s offline_mode =
     then_do (request_context s offline_mode) (\<lambda>r. ret (respond question r))"

text \<open>\<^verbatim>\<open>except Exception as e\<close>: the error becomes the answer, with no link. What the
  body changed before it raised stays changed.\<close>

definition error_answer :: "exn \<Rightarrow> string \<times> string option" where
  "error_answer e = (''An error occurred: '' @ msg e, None)"

definition get_advanced_topic_content ::
  "string \<Rightarrow> string \<Rightarrow> bool \<Rightarrow> world \<Rightarrow> (string \<times> string option) \<times> world" where
  "get_advanced_topic_content question s offline_mode w =
     (case content_request question s offline_mode w of
        (Inl e, w') \<Rightarrow> (error_answer e, w')
      | (Inr r, w') \<Rightarrow> (r, w'))"

section \<open>Search ranker\<close>

definition calculate_relevance_score ::
  "string \<Rightarrow> string \<Rightarrow> int \<Rightarrow> json option \<Rightarrow> rat" where
  "calculate_relevance_score query c lu user_preferences = 1 / 2"

type_synonym search_result = "string \<times> string \<times> rat"

definition score :: "search_result \<Rightarrow> rat" where
  "score r = snd (snd r)"

text \<open>The loop over the rows: \<open>results\<close> is the list built so far.\<close>

fun scan_loop :: "string \<Rightarrow> json option \<Rightarrow> topic list \<Rightarrow> search_result list \<Rightarrow> search_result list" where
  "scan_loop query prefs [] results = results"
| "scan_loop query prefs (t # ts) results =
     (let sc = calculate_relevance_score query (content t) (last_update t) prefs in
      scan_loop query prefs ts
        (if sc > 0 then results @ [(sector t, content t, sc)] else results))"

text \<open>\<^verbatim>\<open>sorted(xs, key=f, reverse=True)\<close>: CPython reverses the list, sorts it stably in
  ascending order and reverses the result, so that equal keys keep their order.\<close>

definition sorted_reverse :: "('a \<Rightarrow> 'k::linorder) \<Rightarrow> 'a list \<Rightarrow> 'a list" where
  "sorted_reverse f xs = rev (sort_key f (rev xs))"

definition advanced_search :: "string \<Rightarrow> json option \<Rightarrow> search_result list action" where
  "advanced_search query user_preferences =
     then_do get_engine (\<lambda>_.
     then_do (prim_op Acquire) (\<lambda>_.
     then_do (prim_op ScanTopics) (\<lambda>_ w.
       (Inr (take 10 (sorted_reverse score (scan_loop query user_preferences (topics w) []))), w))))"

section \<open>Observations and example worlds\<close>

text \<open>The calls made to each client, the row a sector has, and a store and cache that
  work.\<close>

definition refresh_calls :: "world \<Rightarrow> client_call list" where
  "refresh_calls w =
     filter (\<lambda>c. case c of RefreshCall _ \<Rightarrow> True | EnrichmentCall _ \<Rightarrow> False) (net_calls w)"

definition enrichment_calls :: "world \<Rightarrow> client_call list" where
  "enrichment_calls w =
     filter (\<lambda>c. case c of RefreshCall _ \<Rightarrow> False | EnrichmentCall _ \<Rightarrow> True) (net_calls w)"

definition stored :: "world \<Rightarrow> string \<Rightarrow> topic option" where
  "stored w s = find (\<lambda>t. sector t = s) (topics w)"

definition no_faults :: "world \<Rightarrow> bool" where
  "no_faults w = (fault w CreateEngine = None \<and> fault w Acquire = None
     \<and> fault w SelectLastUpdate = None \<and> fault w SelectTopic = None
     \<and> fault w ScanTopics = None \<and> fault w UpsertTopic = None
     \<and> fault w RedisGet = None \<and> fault w RedisSetex = None)"

text \<open>The External Refresh Client fails for a sector: the request raises a transport
  failure, the status is not 200, the body does not decode, or the document has not the
  fields of a payload.\<close>

definition refresh_fails :: "world \<Rightarrow> string \<Rightarrow> bool" where
  "refresh_fails w s =
     (case api_get w s of
        HttpRaises e \<Rightarrow> refresh_failure e
      | HttpResponse status body \<Rightarrow>
          status \<noteq> 200 \<or>
          (case body of Inl e \<Rightarrow> refresh_failure e | Inr d \<Rightarrow> payload_fields d = None))"

text \<open>The External Refresh Client fails in one of the ways the handler of
  \<^verbatim>\<open>fetch_api_data\<close> names: the request raises a \<^verbatim>\<open>ClientError\<close> (network error), the
  status is not 200 (the \<^verbatim>\<open>ValueError\<close> of line 101), or decoding the body raises
  (malformed payload).\<close>

definition fetch_fails :: "world \<Rightarrow> string \<Rightarrow> bool" where
  "fetch_fails w s =
     (case api_get w s of
        HttpRaises e \<Rightarrow> fetch_handled e
      | HttpResponse status body \<Rightarrow>
          status \<noteq> 200 \<or> (case body of Inl e \<Rightarrow> fetch_handled e | Inr d \<Rightarrow> False))"

definition quoted :: "string \<Rightarrow> string" where
  "quoted x = CHR 0x22 # x @ [CHR 0x22]"

definition physics_topic :: topic where
  "physics_topic =
     \<lparr>sector = ''physics'', content = ''Stored notes on mechanics'',
      further_reading = ''http://old'', last_update = 0\<rparr>"

definition summaries_text :: string where
  "summaries_text =
     ''[{'' @ quoted ''summary'' @ '': '' @ quoted ''Kepler'' @ ''}, {''
       @ quoted ''summary'' @ '': '' @ quoted ''Galileo'' @ ''}]''"

definition summaries_doc :: json where
  "summaries_doc = JArr [JObj [(''summary'', JStr ''Kepler'')], JObj [(''summary'', JStr ''Galileo'')]]"

definition newton_payload :: json where
  "newton_payload =
     JObj [(''content'', JStr ''Newton laws''), (''further_reading'', JStr ''http://x'')]"

definition newton_text :: string where
  "newton_text =
     ''{'' @ quoted ''content'' @ '': '' @ quoted ''Newton laws'' @ '', ''
       @ quoted ''further_reading'' @ '': '' @ quoted ''http://x'' @ ''}''"

text \<open>\<^verbatim>\<open>json.loads\<close> and \<^verbatim>\<open>json.dumps\<close> on the documents of the examples.\<close>

definition example_loads :: "string \<Rightarrow> exn + json" where
  "example_loads text =
     (if text = summaries_text then Inr summaries_doc
      else if text = newton_text then Inr newton_payload
      else Inl (Exn JSONDecodeError ''Expecting value: line 1 column 1 (char 0)''))"

definition example_dumps :: "json \<Rightarrow> string" where
  "example_dumps d =
     (if d = summaries_doc then summaries_text
      else if d = newton_payload then newton_text
      else ''null'')"

text \<open>A world with one stored topic, an empty cache, a store and a cache that work, and
  both remote services unreachable.\<close>

definition example_world :: world where
  "example_world =
     \<lparr>async_engine = True, topics = [physics_topic], cache = (\<lambda>_. None), net_calls = [],
      now = 0, fault = (\<lambda>_. None),
      api_get = (\<lambda>_. HttpRaises (Exn ClientError ''Cannot connect to host'')),
      academic_get = (\<lambda>_. None),
      json_loads = example_loads, json_dumps = example_dumps\<rparr>"

definition week_and_second_world :: world where
  "week_and_second_world = example_world\<lparr>now := 7 * usec_per_day + usec_per_sec\<rparr>"

definition eight_days_world :: world where
  "eight_days_world = example_world\<lparr>now := 8 * usec_per_day\<rparr>"

section \<open>Frames: what an action leaves unchanged\<close>

definition preserves :: "(world \<Rightarrow> 'b) \<Rightarrow> 'a action \<Rightarrow> bool" where
  "preserves f m = (\<forall>w. f (snd (m w)) = f w)"

text \<open>The example world before the engine exists.\<close>

definition cold_world :: world where
  "cold_world = example_world\<lparr>async_engine := False\<rparr>"

text \<open>The example world with a store that refuses connections.\<close>

definition connection_refused :: exn where
  "connection_refused = Exn DatabaseError ''connection refused''"

definition broken_store_world :: world where
  "broken_store_world =
     example_world\<lparr>fault := (\<lambda>p. if p = Acquire then Some connection_refused else None)\<rparr>"

text \<open>The example world where the engine cannot be created.\<close>

definition no_engine_world :: world where
  "no_engine_world =
     example_world\<lparr>async_engine := False,
                    fault := (\<lambda>p. if p = CreateEngine then Some connection_refused else None)\<rparr>"

text \<open>The example world with eleven rows in the table.\<close>

definition crowded_world :: world where
  "crowded_world = example_world\<lparr>topics := replicate 11 physics_topic\<rparr>"

definition physics_result :: search_result where
  "physics_result = (''physics'', ''Stored notes on mechanics'', 1 / 2)"

text \<open>Scenario B of the specification: the topic is 10 days old, the External Refresh
  Client times out, and summaries for the sector are cached.\<close>

definition timeout_world :: world where
  "timeout_world =
     example_world\<lparr>now := 10 * usec_per_day,
        cache := (\<lambda>k. if k = ''academic_physics''
                       then Some (summaries_text, 10 * usec_per_day + 1000) else None),
        api_get := (\<lambda>_. HttpRaises (Exn TimeoutError ''''))\<rparr>"

text \<open>The world of Scenario B with a network error in place of the timeout.\<close>

definition unreachable_world :: world where
  "unreachable_world =
     timeout_world\<lparr>api_get := (\<lambda>_. HttpRaises (Exn ClientError ''Cannot connect to host''))\<rparr>"

text \<open>Scenario A of the specification: no topic is stored and the External Refresh Client
  answers with a payload; the Enrichment Client answers with two summaries.\<close>

definition newton_world :: world where
  "newton_world =
     example_world\<lparr>topics := [], now := 5 * usec_per_day,
        api_get := (\<lambda>_. HttpResponse 200 (Inr newton_payload)),
        academic_get := (\<lambda>_. Some summaries_text)\<rparr>"

text \<open>The example world where the Enrichment Client answers with two summaries, and a
  later world, half an hour on, where the client is unreachable again.\<close>

definition enriching_world :: world where
  "enriching_world = example_world\<lparr>academic_get := (\<lambda>_. Some summaries_text)\<rparr>"

definition half_hour_later_world :: world where
  "half_hour_later_world =
     example_world\<lparr>now := 1800 * usec_per_sec,
        cache := (\<lambda>k. if k = ''academic_physics''
                       then Some (summaries_text, 3600 * usec_per_sec) else None)\<rparr>"

section \<open>Worlds that differ in the refresh entries of the cache only\<close>

definition is_api_key :: "string \<Rightarrow> bool" where
  "is_api_key k = (take 4 k = ''api_'')"

definition api_equiv :: "world \<Rightarrow> world \<Rightarrow> bool" where
  "api_equiv w1 w2 =
     (async_engine w1 = async_engine w2 \<and> topics w1 = topics w2
      \<and> net_calls w1 = net_calls w2 \<and> now w1 = now w2 \<and> fault w1 = fault w2
      \<and> api_get w1 = api_get w2 \<and> academic_get w1 = academic_get w2
      \<and> json_loads w1 = json_loads w2 \<and> json_dumps w1 = json_dumps w2
      \<and> (\<forall>k. \<not> is_api_key k \<longrightarrow> cache w1 k = cache w2 k))"

text \<open>An action ignores the refresh entries: on related worlds it gives the same result and
  related worlds.\<close>

definition ignores_api :: "'a action \<Rightarrow> bool" where
  "ignores_api m =
     (\<forall>w1 w2. api_equiv w1 w2 \<longrightarrow> fst (m w1) = fst (m w2) \<and> api_equiv (snd (m w1)) (snd (m w2)))"

text \<open>The world of Scenario B with entries under \<open>api_physics\<close> and \<open>api_chemistry\<close>.\<close>

definition timeout_world_api :: world where
  "timeout_world_api =
     timeout_world\<lparr>cache := (\<lambda>k. if k = ''api_physics'' then Some (newton_text, 11 * usec_per_day)
                                 else if k = ''api_chemistry'' then Some (''null'', 0)
                                 else cache timeout_world k)\<rparr>"

section \<open>Lemmas about actions\<close>

lemmas act_defs = ret_def raise_def then_do_def prim_op_def lift_def

lemma then_do_assoc: "then_do (then_do m f) g = then_do m (\<lambda>x. then_do (f x) g)"
  by (rule ext) (simp add: then_do_def split: prod.splits sum.splits)

lemma then_do_ret: "then_do (ret x) g = g x"
  by (rule ext) (simp add: then_do_def ret_def)

text \<open>The body, statement by statement.\<close>

lemma answer_from_store_steps:
  "answer_from_store q s off =
     then_do (select_by_sector SelectTopic s) (\<lambda>row.
       case row of
         None \<Rightarrow> ret (no_information, None)
       | Some t \<Rightarrow>
           then_do (build_context s off t) (\<lambda>context.
             ret (nlp_answer context q, Some (further_reading t))))"
proof -
  have "then_do (case row of None \<Rightarrow> ret None
                 | Some t \<Rightarrow> then_do (build_context s off t) (\<lambda>context. ret (Some (context, t))))
          (\<lambda>r. ret (respond q r))
        = (case row of None \<Rightarrow> ret (no_information, None)
           | Some t \<Rightarrow> then_do (build_context s off t) (\<lambda>context.
                        ret (nlp_answer context q, Some (further_reading t))))" for row
    by (cases row) (simp_all add: then_do_assoc then_do_ret respond_def)
  then show ?thesis
    by (simp add: answer_from_store_def context_from_store_def then_do_assoc)
qed

lemma content_request_steps:
  "content_request q s off =
     then_do get_engine (\<lambda>_.
     then_do (prim_op Acquire) (\<lambda>_.
     then_do (refresh_if_stale s off) (\<lambda>_.
     answer_from_store q s off)))"
  by (simp add: content_request_def request_context_def answer_from_store_def then_do_assoc)

lemmas all_defs = act_defs redis_get_def redis_setex_def init_async_db_def get_engine_def
  select_by_sector_def timedelta_days_def should_fetch_from_api_def fetch_handled_def
  fetch_except_def api_key_def academic_key_def fetch_api_data_def upsert_topic_def
  payload_fields_def refresh_failure_def update_topic_from_api_def fetch_academic_resources_def
  joined_summaries_def enrichment_def extend_context_def build_context_def
  refresh_if_stale_def answer_from_store_steps content_request_steps get_advanced_topic_content_def
  advanced_search_def refresh_calls_def enrichment_calls_def stored_def no_faults_def
  refresh_fails_def usec_per_day_def usec_per_sec_def error_answer_def

lemmas example_defs = example_world_def physics_topic_def week_and_second_world_def
  eight_days_world_def

lemma preservesD: "preserves f m \<Longrightarrow> f (snd (m w)) = f w"
  by (simp add: preserves_def)

lemma preserves_pair: "preserves f m \<Longrightarrow> m w = (r, w') \<Longrightarrow> f w' = f w"
  by (metis preservesD snd_conv)

lemma preserves_then_do:
  assumes "preserves f m" and "\<And>x. preserves f (g x)"
  shows "preserves f (then_do m g)"
proof -
  have "f (snd (then_do m g w)) = f w" for w
  proof (cases "m w")
    case (Pair r w')
    have w': "f w' = f w"
      using assms(1) Pair by (metis preservesD snd_conv)
    show ?thesis
    proof (cases r)
      case (Inl e)
      with Pair w' show ?thesis by (simp add: then_do_def)
    next
      case (Inr x)
      with Pair w' assms(2)[of x] show ?thesis
        by (simp add: then_do_def preserves_def)
    qed
  qed
  then show ?thesis by (simp add: preserves_def)
qed

lemma preserves_ret: "preserves f (ret x)"
  by (simp add: preserves_def ret_def)

lemma preserves_lift: "preserves f (lift r)"
  by (simp add: preserves_def lift_def)

lemma preserves_prim_op: "preserves f (prim_op p)"
  by (simp add: preserves_def prim_op_def split: option.splits)

lemma preserves_const: "preserves f (\<lambda>w. (r w, w))"
  by (simp add: preserves_def)

lemma then_do_Inr: "m w = (Inr x, w') \<Longrightarrow> then_do m f w = f x w'"
  by (simp add: then_do_def)

lemma then_do_Inl: "m w = (Inl e, w') \<Longrightarrow> then_do m f w = (Inl e, w')"
  by (simp add: then_do_def)

lemma preserves_redis_get: "preserves f (redis_get k)"
  unfolding redis_get_def by (intro preserves_then_do preserves_prim_op preserves_const)


lemma preserves_fetch_except: "preserves f (fetch_except e)"
  by (simp add: preserves_def fetch_except_def ret_def raise_def)

lemma preserves_redis_setex:
  assumes "\<And>w x. f (w\<lparr>cache := (cache w)(k \<mapsto> x)\<rparr>) = f w"
  shows "preserves f (redis_setex k ttl v)"
  unfolding redis_setex_def
  by (intro preserves_then_do preserves_prim_op) (simp add: preserves_def assms)

lemma preserves_get_engine:
  assumes "\<And>w. f (w\<lparr>async_engine := True\<rparr>) = f w"
  shows "preserves f get_engine"
  by (simp add: preserves_def get_engine_def init_async_db_def act_defs assms split: option.splits)

lemma preserves_select: "preserves f (select_by_sector p s)"
  unfolding select_by_sector_def by (intro preserves_then_do preserves_prim_op preserves_const)

lemma preserves_should_fetch: "preserves f (should_fetch_from_api s)"
  unfolding should_fetch_from_api_def by (intro preserves_then_do preserves_select preserves_const)

lemma preserves_fetch_api_data:
  assumes c: "\<And>w x. f (w\<lparr>cache := (cache w)(api_key s \<mapsto> x)\<rparr>) = f w"
    and n: "\<And>w. f (w\<lparr>net_calls := net_calls w @ [RefreshCall s]\<rparr>) = f w"
  shows "preserves f (fetch_api_data s)"
proof -
  have "f (snd (fetch_api_data s w)) = f w" for w
    using n[of w]
    by (auto simp: fetch_api_data_def Let_def fetch_except_def ret_def raise_def
          dest: preserves_pair[OF preserves_redis_setex[of f, OF c]]
          split: http_outcome.splits sum.splits prod.splits)
  then show ?thesis by (simp add: preserves_def)
qed

lemma preserves_upsert_topic:
  assumes "\<And>w ts. f (w\<lparr>topics := ts\<rparr>) = f w"
  shows "preserves f (upsert_topic s c fr)"
  unfolding upsert_topic_def
  by (intro preserves_then_do preserves_prim_op) (simp add: preserves_def assms)

lemma preserves_update_topic:
  assumes c: "\<And>w x. f (w\<lparr>cache := (cache w)(api_key s \<mapsto> x)\<rparr>) = f w"
    and n: "\<And>w. f (w\<lparr>net_calls := net_calls w @ [RefreshCall s]\<rparr>) = f w"
    and t: "\<And>w ts. f (w\<lparr>topics := ts\<rparr>) = f w"
  shows "preserves f (update_topic_from_api s)"
proof -
  have "f (snd (update_topic_from_api s w)) = f w" for w
    by (auto simp: update_topic_from_api_def preservesD[OF preserves_upsert_topic[of f, OF t]]
          dest: preserves_pair[OF preserves_fetch_api_data[of f, OF c n]]
          split: prod.splits sum.splits option.splits)
  then show ?thesis by (simp add: preserves_def)
qed

lemma preserves_refresh_if_stale:
  assumes c: "\<And>w x. f (w\<lparr>cache := (cache w)(api_key s \<mapsto> x)\<rparr>) = f w"
    and n: "\<And>w. f (w\<lparr>net_calls := net_calls w @ [RefreshCall s]\<rparr>) = f w"
    and t: "\<And>w ts. f (w\<lparr>topics := ts\<rparr>) = f w"
  shows "preserves f (refresh_if_stale s off)"
  unfolding refresh_if_stale_def
  by (auto intro!: preserves_then_do preserves_should_fetch preserves_ret
        preserves_update_topic[of f, OF c n t])

lemma preserves_fetch_academic:
  assumes c: "\<And>w x. f (w\<lparr>cache := (cache w)(academic_key s \<mapsto> x)\<rparr>) = f w"
    and n: "\<And>w. f (w\<lparr>net_calls := net_calls w @ [EnrichmentCall s]\<rparr>) = f w"
  shows "preserves f (fetch_academic_resources s)"
proof -
  have "f (snd (fetch_academic_resources s w)) = f w" for w
    using n[of w]
    by (auto simp: fetch_academic_resources_def Let_def then_do_def ret_def
          dest: preserves_pair[OF preserves_redis_setex[of f, OF c]]
          split: option.splits sum.splits prod.splits)
  then show ?thesis by (simp add: preserves_def)
qed

lemma preserves_enrichment:
  assumes c: "\<And>w x. f (w\<lparr>cache := (cache w)(academic_key s \<mapsto> x)\<rparr>) = f w"
    and n: "\<And>w. f (w\<lparr>net_calls := net_calls w @ [EnrichmentCall s]\<rparr>) = f w"
  shows "preserves f (enrichment s)"
  unfolding enrichment_def
  by (auto intro!: preserves_then_do preserves_redis_get preserves_ret
        preserves_fetch_academic[of f, OF c n] preserves_const preserves_lift
        split: option.splits)

lemma preserves_build_context:
  assumes c: "\<And>w x. f (w\<lparr>cache := (cache w)(academic_key s \<mapsto> x)\<rparr>) = f w"
    and n: "\<And>w. f (w\<lparr>net_calls := net_calls w @ [EnrichmentCall s]\<rparr>) = f w"
  shows "preserves f (build_context s off t)"
  unfolding build_context_def
  by (auto intro!: preserves_then_do preserves_ret preserves_enrichment[of f, OF c n])

lemma keys_differ: "api_key s \<noteq> academic_key s'"
  by (simp add: api_key_def academic_key_def)

lemma refresh_calls_simps [simp]:
  "refresh_calls (w\<lparr>cache := c\<rparr>) = refresh_calls w"
  "refresh_calls (w\<lparr>topics := ts\<rparr>) = refresh_calls w"
  "refresh_calls (w\<lparr>async_engine := b\<rparr>) = refresh_calls w"
  "refresh_calls (w\<lparr>net_calls := net_calls w @ [EnrichmentCall s]\<rparr>) = refresh_calls w"
  "refresh_calls (w\<lparr>net_calls := net_calls w @ [RefreshCall s]\<rparr>) = refresh_calls w @ [RefreshCall s]"
  by (simp_all add: refresh_calls_def)

lemma enrichment_calls_simps [simp]:
  "enrichment_calls (w\<lparr>cache := c\<rparr>) = enrichment_calls w"
  "enrichment_calls (w\<lparr>topics := ts\<rparr>) = enrichment_calls w"
  "enrichment_calls (w\<lparr>async_engine := b\<rparr>) = enrichment_calls w"
  "enrichment_calls (w\<lparr>net_calls := net_calls w @ [RefreshCall s]\<rparr>) = enrichment_calls w"
  "enrichment_calls (w\<lparr>net_calls := net_calls w @ [EnrichmentCall s]\<rparr>) = enrichment_calls w @ [EnrichmentCall s]"
  by (simp_all add: enrichment_calls_def)

lemma stored_simps [simp]:
  "stored (w\<lparr>cache := c\<rparr>) = stored w"
  "stored (w\<lparr>net_calls := n\<rparr>) = stored w"
  "stored (w\<lparr>async_engine := b\<rparr>) = stored w"
  by (simp_all add: stored_def fun_eq_iff)


lemma preserves_answer_from_store:
  assumes c: "\<And>w x. f (w\<lparr>cache := (cache w)(academic_key s \<mapsto> x)\<rparr>) = f w"
    and n: "\<And>w. f (w\<lparr>net_calls := net_calls w @ [EnrichmentCall s]\<rparr>) = f w"
  shows "preserves f (answer_from_store q s off)"
  unfolding answer_from_store_steps
  by (auto intro!: preserves_then_do preserves_ret preserves_select
        preserves_build_context[of f, OF c n] split: option.splits)

lemma snd_get_content: "snd (get_advanced_topic_content q s off w) = snd (content_request q s off w)"
  by (simp add: get_advanced_topic_content_def split: prod.splits sum.splits)

lemma should_fetch_eq:
  "fault w SelectLastUpdate = None \<Longrightarrow>
   should_fetch_from_api s w =
     (Inr (case stored w s of None \<Rightarrow> True
           | Some t \<Rightarrow> 8 * usec_per_day \<le> now w - last_update t), w)"
  by (auto simp: should_fetch_from_api_def select_by_sector_def act_defs stored_def
        timedelta_days_def usec_per_day_def split: option.splits)

lemma should_fetch_fault:
  "fault w SelectLastUpdate = Some e \<Longrightarrow> should_fetch_from_api s w = (Inl e, w)"
  by (simp add: should_fetch_from_api_def select_by_sector_def act_defs)

lemma refresh_if_stale_fresh:
  assumes "stored w s = Some t" and "now w - last_update t < 8 * usec_per_day"
  shows "snd (refresh_if_stale s off w) = w"
proof (cases "fault w SelectLastUpdate")
  case None
  with assms show ?thesis
    by (simp add: refresh_if_stale_def then_do_def should_fetch_eq ret_def)
next
  case (Some e)
  then show ?thesis
    by (simp add: refresh_if_stale_def then_do_def should_fetch_fault ret_def)
qed

lemma snd_prim_op [simp]: "snd (prim_op p w) = w"
  by (simp add: prim_op_def split: option.splits)

lemma snd_then_do:
  "snd (then_do m f w) = (case fst (m w) of Inl e \<Rightarrow> snd (m w) | Inr x \<Rightarrow> snd (f x (snd (m w))))"
  by (simp add: then_do_def split: prod.splits sum.splits)

lemma fresh_topic_no_refresh:
  assumes st: "stored w s = Some t" and fresh: "now w - last_update t < 8 * usec_per_day"
  shows "refresh_calls (snd (get_advanced_topic_content q s off w)) = refresh_calls w"
proof -
  define w1 where "w1 = snd (get_engine w)"
  have w1: "refresh_calls w1 = refresh_calls w" "stored w1 s = stored w s" "now w1 = now w"
    unfolding w1_def
    by (simp_all add: preservesD[OF preserves_get_engine] stored_def)
  have r: "snd (refresh_if_stale s off w1) = w1"
    using refresh_if_stale_fresh[of w1 s t off] st fresh w1 by simp
  have a: "refresh_calls (snd (answer_from_store q s off w1)) = refresh_calls w1"
    by (simp add: preservesD[OF preserves_answer_from_store])
  show ?thesis
    using w1 r a
    by (simp add: snd_get_content content_request_steps snd_then_do w1_def split: sum.splits)
qed


lemma refresh_calls_fetch_api_data:
  "refresh_calls (snd (fetch_api_data s w)) = refresh_calls w @ [RefreshCall s]"
  by (auto simp: fetch_api_data_def Let_def fetch_except_def ret_def raise_def
        dest: preserves_pair[OF preserves_redis_setex[of refresh_calls, OF refresh_calls_simps(1)]]
        split: http_outcome.splits sum.splits prod.splits)

lemma refresh_calls_update_topic:
  "refresh_calls (snd (update_topic_from_api s w)) = refresh_calls w @ [RefreshCall s]"
proof -
  obtain r w' where f: "fetch_api_data s w = (r, w')" by force
  have w': "refresh_calls w' = refresh_calls w @ [RefreshCall s]"
    using refresh_calls_fetch_api_data[of s w] f by simp
  show ?thesis
    using f w'
    by (auto simp: update_topic_from_api_def preservesD[OF preserves_upsert_topic[of refresh_calls]]
          split: prod.splits sum.splits option.splits)
qed

lemma get_engine_ok:
  "async_engine w \<or> fault w CreateEngine = None \<Longrightarrow> fst (get_engine w) = Inr ()"
  by (auto simp: get_engine_def init_async_db_def act_defs)

lemma prim_op_ok: "fault w p = None \<Longrightarrow> prim_op p w = (Inr (), w)"
  by (simp add: prim_op_def)

lemma stale_topic_refreshes:
  assumes nf: "no_faults w"
    and stale: "case stored w s of None \<Rightarrow> True | Some t \<Rightarrow> 8 * usec_per_day \<le> now w - last_update t"
  shows "refresh_calls (snd (get_advanced_topic_content q s False w)) = refresh_calls w @ [RefreshCall s]"
proof -
  define w1 where "w1 = snd (get_engine w)"
  have w1: "refresh_calls w1 = refresh_calls w" "stored w1 s = stored w s" "now w1 = now w"
    "fault w1 = fault w"
    unfolding w1_def
    by (simp_all add: preservesD[OF preserves_get_engine] stored_def)
  have g: "get_engine w = (Inr (), w1)"
    using get_engine_ok[of w] nf by (simp add: w1_def no_faults_def prod_eq_iff)
  have p: "prim_op Acquire w1 = (Inr (), w1)"
    using nf w1 by (simp add: prim_op_ok no_faults_def)
  have sf: "should_fetch_from_api s w1 = (Inr True, w1)"
    using nf w1 stale by (simp add: should_fetch_eq no_faults_def split: option.splits)
  define w2 where "w2 = snd (update_topic_from_api s w1)"
  have w2: "refresh_calls w2 = refresh_calls w @ [RefreshCall s]"
    by (simp add: w2_def refresh_calls_update_topic w1)
  have r: "snd (refresh_if_stale s False w1) = w2"
    by (simp add: refresh_if_stale_def then_do_def sf w2_def)
  have a: "refresh_calls (snd (answer_from_store q s False w2)) = refresh_calls w2"
    by (simp add: preservesD[OF preserves_answer_from_store])
  show ?thesis
    using r a w2
    by (simp add: snd_get_content content_request_steps snd_then_do g p split: sum.splits)
qed

section \<open>Freshness (C2)\<close>

text \<open>
  C2, as the specification states it, fails: a topic aged 7 days and 1 second is older
  than 7 days, yet \<open>should_fetch_from_api\<close> answers \<open>False\<close> and the request makes no call
  to the External Refresh Client.
\<close>

theorem C2_counterexample:
  "stored week_and_second_world ''physics'' = Some physics_topic
   \<and> 7 * usec_per_day < now week_and_second_world - last_update physics_topic
   \<and> fst (should_fetch_from_api ''physics'' week_and_second_world) = Inr False
   \<and> refresh_calls (snd (get_advanced_topic_content ''gravity'' ''physics'' False
                           week_and_second_world)) = []"
  by (simp add: example_defs all_defs)

text \<open>
  C2, amended: \<open>should_fetch_from_api\<close> returns true exactly when the sector has no stored
  topic or the whole days of \<open>now - last_update\<close> (\<^verbatim>\<open>timedelta.days\<close>, rounded down) exceed
  7, that is when the age is at least 8 days. For every stored topic younger than 8 days
  (so at exactly 7 days, and at 7 days and 1 second) the request makes no call to the
  External Refresh Client, offline or not; with a working store and cache, a request
  that is not offline for a sector without a topic, or with one aged 8 days or more,
  makes exactly one such call.
\<close>

theorem C2_stale_from_eight_days:
  "(fault w SelectLastUpdate = None \<longrightarrow>
      fst (should_fetch_from_api s w) =
        Inr (case stored w s of None \<Rightarrow> True
             | Some t \<Rightarrow> 8 * usec_per_day \<le> now w - last_update t))
   \<and> (\<forall>t. stored w s = Some t \<and> now w - last_update t < 8 * usec_per_day \<longrightarrow>
          refresh_calls (snd (get_advanced_topic_content q s off w)) = refresh_calls w)
   \<and> (no_faults w
        \<and> (case stored w s of None \<Rightarrow> True
            | Some t \<Rightarrow> 8 * usec_per_day \<le> now w - last_update t) \<longrightarrow>
          refresh_calls (snd (get_advanced_topic_content q s False w))
            = refresh_calls w @ [RefreshCall s])"
  using fresh_topic_no_refresh[of w s _ q off] stale_topic_refreshes[of w s q]
  by (simp add: should_fetch_eq)

theorem C2_stale_from_eight_days_witness:
  "fault week_and_second_world SelectLastUpdate = None
   \<and> stored week_and_second_world ''physics'' = Some physics_topic
   \<and> now week_and_second_world - last_update physics_topic < 8 * usec_per_day
   \<and> fst (should_fetch_from_api ''physics'' week_and_second_world) = Inr False
   \<and> refresh_calls (snd (get_advanced_topic_content ''gravity'' ''physics'' False
                           week_and_second_world))
       = refresh_calls week_and_second_world
   \<and> no_faults eight_days_world
   \<and> stored eight_days_world ''physics'' = Some physics_topic
   \<and> 8 * usec_per_day \<le> now eight_days_world - last_update physics_topic
   \<and> refresh_calls (snd (get_advanced_topic_content ''gravity'' ''physics'' False
                           eight_days_world))
       = refresh_calls eight_days_world @ [RefreshCall ''physics'']"
proof -
  have f: "fault week_and_second_world SelectLastUpdate = None"
    by (simp add: example_defs)
  have st: "stored week_and_second_world ''physics'' = Some physics_topic"
    by (simp add: example_defs stored_def)
  have age: "now week_and_second_world - last_update physics_topic < 8 * usec_per_day"
    by (simp add: example_defs usec_per_day_def usec_per_sec_def)
  have nf: "no_faults eight_days_world"
    by (simp add: example_defs no_faults_def)
  have st8: "stored eight_days_world ''physics'' = Some physics_topic"
    by (simp add: example_defs stored_def)
  have age8: "8 * usec_per_day \<le> now eight_days_world - last_update physics_topic"
    by (simp add: example_defs usec_per_day_def)
  show ?thesis
    using f st age nf st8 age8
      C2_stale_from_eight_days[of week_and_second_world "''physics''" "''gravity''" False]
      C2_stale_from_eight_days[of eight_days_world "''physics''" "''gravity''" False]
    by simp
qed

section \<open>Offline requests (C8)\<close>

lemma offline_world:
  "snd (get_advanced_topic_content q s True w) = snd (get_engine w)"
  by (simp add: snd_get_content content_request_steps snd_then_do refresh_if_stale_def
        answer_from_store_steps select_by_sector_def build_context_def ret_def
        split: sum.splits option.splits)

lemma offline_depends:
  assumes "async_engine w' = async_engine w" "fault w' = fault w" "topics w' = topics w"
  shows "fst (get_advanced_topic_content q s True w') = fst (get_advanced_topic_content q s True w)"
  using assms
  by (simp add: get_advanced_topic_content_def content_request_steps refresh_if_stale_def
        answer_from_store_steps select_by_sector_def build_context_def get_engine_def
        init_async_db_def act_defs split: option.splits)

lemma offline_engine_ready:
  "fst (get_advanced_topic_content q s True (snd (get_engine w)))
     = fst (get_advanced_topic_content q s True w)"
  by (simp add: get_advanced_topic_content_def content_request_steps refresh_if_stale_def
        answer_from_store_steps select_by_sector_def build_context_def get_engine_def
        init_async_db_def act_defs split: option.splits)

text \<open>
  C8: an offline request leaves the Topic Store and the log of client calls as they
  were (it calls neither the External Refresh Client nor the Enrichment Client). A second
  offline request for the same question and sector, made in any world \<open>w2\<close> that has the
  store (rows, faults, engine) the first request left behind, whatever happened to the
  cache, the clock and the remote services in between, returns the same answer and link
  and makes no client call either.
\<close>

theorem C8_offline_idempotent:
  "(topics w2 = topics (snd (get_advanced_topic_content q s True w))
    \<and> fault w2 = fault (snd (get_advanced_topic_content q s True w))
    \<and> async_engine w2 = async_engine (snd (get_advanced_topic_content q s True w)) \<longrightarrow>
      fst (get_advanced_topic_content q s True w2) = fst (get_advanced_topic_content q s True w)
      \<and> net_calls (snd (get_advanced_topic_content q s True w2)) = net_calls w2)
    \<and> net_calls (snd (get_advanced_topic_content q s True w)) = net_calls w
    \<and> topics (snd (get_advanced_topic_content q s True w)) = topics w"
proof -
  have n: "net_calls (snd (get_engine v)) = net_calls v" "topics (snd (get_engine v)) = topics v" for v
    by (simp_all add: preservesD[OF preserves_get_engine])
  show ?thesis
    using offline_depends[of w2 "snd (get_engine w)" q s] offline_engine_ready[of q s w] n
    by (simp add: offline_world)
qed

theorem C8_offline_idempotent_witness:
  "topics eight_days_world = topics (snd (get_advanced_topic_content ''gravity'' ''physics'' True cold_world))
   \<and> fault eight_days_world = fault (snd (get_advanced_topic_content ''gravity'' ''physics'' True cold_world))
   \<and> async_engine eight_days_world
       = async_engine (snd (get_advanced_topic_content ''gravity'' ''physics'' True cold_world))
   \<and> fst (get_advanced_topic_content ''gravity'' ''physics'' True eight_days_world)
       = fst (get_advanced_topic_content ''gravity'' ''physics'' True cold_world)
   \<and> fst (get_advanced_topic_content ''gravity'' ''physics'' True cold_world)
       = (''Answer based on the context'', Some ''http://old'')
   \<and> net_calls (snd (get_advanced_topic_content ''gravity'' ''physics'' True eight_days_world)) = []"
proof -
  have w1: "snd (get_advanced_topic_content ''gravity'' ''physics'' True cold_world)
              = cold_world\<lparr>async_engine := True\<rparr>"
    by (simp add: offline_world get_engine_def init_async_db_def act_defs cold_world_def
          example_world_def)
  have h: "topics eight_days_world = topics (cold_world\<lparr>async_engine := True\<rparr>)"
    "fault eight_days_world = fault (cold_world\<lparr>async_engine := True\<rparr>)"
    "async_engine eight_days_world = async_engine (cold_world\<lparr>async_engine := True\<rparr>)"
    by (simp_all add: example_defs cold_world_def)
  have r: "fst (get_advanced_topic_content ''gravity'' ''physics'' True cold_world)
             = (''Answer based on the context'', Some ''http://old'')"
    by (simp add: example_defs cold_world_def all_defs nlp_answer_def)
  have n: "net_calls eight_days_world = []"
    by (simp add: example_defs)
  show ?thesis
    using h r n
      C8_offline_idempotent[of eight_days_world "''gravity''" "''physics''" cold_world]
    by (simp add: w1)
qed

section \<open>Running a content request\<close>

lemma then_do_unfold:
  "then_do m f w = (case fst (m w) of Inl e \<Rightarrow> (Inl e, snd (m w)) | Inr x \<Rightarrow> f x (snd (m w)))"
  by (cases "m w") (simp add: then_do_def split: sum.splits)

lemma get_engine_frame:
  "fault (snd (get_engine w)) = fault w" "topics (snd (get_engine w)) = topics w"
  "cache (snd (get_engine w)) = cache w" "net_calls (snd (get_engine w)) = net_calls w"
  "now (snd (get_engine w)) = now w" "api_get (snd (get_engine w)) = api_get w"
  "academic_get (snd (get_engine w)) = academic_get w"
  "json_loads (snd (get_engine w)) = json_loads w" "json_dumps (snd (get_engine w)) = json_dumps w"
  "stored (snd (get_engine w)) = stored w"
  by (simp_all add: preservesD[OF preserves_get_engine] stored_def fun_eq_iff)

lemma prim_op_fst: "fst (prim_op p w) = (case fault w p of None \<Rightarrow> Inr () | Some e \<Rightarrow> Inl e)"
  by (simp add: prim_op_def split: option.splits)

lemma content_request_unfold:
  "content_request q s off w =
     (case fst (get_engine w) of
        Inl e \<Rightarrow> (Inl e, snd (get_engine w))
      | Inr _ \<Rightarrow>
          (case fault w Acquire of
             Some e \<Rightarrow> (Inl e, snd (get_engine w))
           | None \<Rightarrow> then_do (refresh_if_stale s off) (\<lambda>_. answer_from_store q s off)
                       (snd (get_engine w))))"
  by (simp add: content_request_steps then_do_unfold[of get_engine] then_do_unfold[of "prim_op Acquire"]
        prim_op_fst get_engine_frame split: sum.splits option.splits)

lemma content_request_run:
  assumes "async_engine w \<or> fault w CreateEngine = None" and "fault w Acquire = None"
  shows "content_request q s off w =
           then_do (refresh_if_stale s off) (\<lambda>_. answer_from_store q s off) (snd (get_engine w))"
  using assms get_engine_ok[of w] by (simp add: content_request_unfold)

lemma get_content_fst:
  "fst (get_advanced_topic_content q s off w) =
     (case fst (content_request q s off w) of Inl e \<Rightarrow> error_answer e | Inr r \<Rightarrow> r)"
  by (simp add: get_advanced_topic_content_def split: prod.splits sum.splits)

lemma engine_fault:
  "\<not> async_engine w \<Longrightarrow> fault w CreateEngine = Some e \<Longrightarrow> fst (content_request q s off w) = Inl e"
  by (simp add: content_request_steps get_engine_def init_async_db_def act_defs)

lemma acquire_fault:
  assumes "async_engine w \<or> fault w CreateEngine = None" and "fault w Acquire = Some e"
  shows "fst (content_request q s off w) = Inl e"
  using assms get_engine_ok[of w] by (simp add: content_request_unfold)

lemma answer_absent:
  "fault w SelectTopic = None \<Longrightarrow> stored w s = None \<Longrightarrow>
   answer_from_store q s off w = (Inr (no_information, None), w)"
  by (simp add: answer_from_store_steps select_by_sector_def act_defs stored_def)

lemma select_fault:
  "fault w SelectTopic = Some e \<Longrightarrow> answer_from_store q s off w = (Inl e, w)"
  by (simp add: answer_from_store_steps select_by_sector_def act_defs)

lemma redis_setex_ok:
  "fault w RedisSetex = None \<Longrightarrow>
   redis_setex k ttl v w = (Inr (), w\<lparr>cache := (cache w)(k \<mapsto> (v, now w + ttl * usec_per_sec))\<rparr>)"
  by (simp add: redis_setex_def then_do_def prim_op_def)

lemma fetch_api_data_fst:
  assumes "fault w RedisSetex = None"
  shows "fst (fetch_api_data s w) =
     (case api_get w s of
        HttpRaises e \<Rightarrow> if fetch_handled e then Inr None else Inl e
      | HttpResponse status body \<Rightarrow>
          if status = 200
          then (case body of
                  Inl e \<Rightarrow> if fetch_handled e then Inr None else Inl e
                | Inr d \<Rightarrow> Inr (Some d))
          else Inr None)"
  using assms
  by (simp add: fetch_api_data_def Let_def fetch_except_def ret_def raise_def redis_setex_ok
        fetch_handled_def split: http_outcome.splits sum.splits)

lemma update_topic_fails:
  assumes rf: "refresh_fails w s" and nf: "fault w RedisSetex = None"
  shows "fst (update_topic_from_api s w) = Inr ()"
    and "topics (snd (update_topic_from_api s w)) = topics w"
proof -
  obtain r w' where f: "fetch_api_data s w = (r, w')" by force
  have t: "topics w' = topics w"
    using preserves_pair[OF preserves_fetch_api_data[of topics s] f] by simp
  have r: "r = fst (fetch_api_data s w)"
    using f by simp
  have cases: "(\<exists>e. r = Inl e \<and> refresh_failure e) \<or> r = Inr None
         \<or> (\<exists>d. r = Inr (Some d) \<and> payload_fields d = None)"
    using rf unfolding r fetch_api_data_fst[OF nf] refresh_fails_def
    by (cases "api_get w s") (auto split: sum.splits)
  show "fst (update_topic_from_api s w) = Inr ()"
    using cases f by (auto simp: update_topic_from_api_def)
  show "topics (snd (update_topic_from_api s w)) = topics w"
    using cases f t by (auto simp: update_topic_from_api_def)
qed

lemma refresh_if_stale_fails:
  assumes "fault w SelectLastUpdate = None" "fault w RedisSetex = None"
    and "off \<or> refresh_fails w s"
  shows "fst (refresh_if_stale s off w) = Inr ()"
    and "topics (snd (refresh_if_stale s off w)) = topics w"
  using assms update_topic_fails[of w s]
  by (auto simp: refresh_if_stale_def then_do_def should_fetch_eq ret_def)

lemma refresh_if_stale_frame:
  "fault (snd (refresh_if_stale s off w)) = fault w"
  "now (snd (refresh_if_stale s off w)) = now w"
  "academic_get (snd (refresh_if_stale s off w)) = academic_get w"
  "json_loads (snd (refresh_if_stale s off w)) = json_loads w"
  "enrichment_calls (snd (refresh_if_stale s off w)) = enrichment_calls w"
  by (simp_all add: preservesD[OF preserves_refresh_if_stale])

lemma refresh_keeps_academic_cache:
  "cache (snd (refresh_if_stale s off w)) (academic_key s') = cache w (academic_key s')"
proof -
  have "preserves (\<lambda>w. cache w (academic_key s')) (refresh_if_stale s off)"
    by (rule preserves_refresh_if_stale) (simp_all add: keys_differ keys_differ[symmetric])
  then show ?thesis by (simp add: preserves_def)
qed

lemma content_request_absent:
  assumes "async_engine w \<or> fault w CreateEngine = None" and "fault w Acquire = None"
    and "fst (refresh_if_stale s off (snd (get_engine w))) = Inr ()"
    and "stored (snd (refresh_if_stale s off (snd (get_engine w)))) s = None"
    and "fault w SelectTopic = None"
  shows "fst (content_request q s off w) = Inr (no_information, None)"
  using assms
  by (simp add: content_request_run then_do_unfold[of "refresh_if_stale s off"]
        answer_absent refresh_if_stale_frame get_engine_frame)

section \<open>Unknown sector (C4)\<close>

text \<open>
  C4: when the engine is available, a connection is acquired, the refresh step returns
  and the sector still has no stored topic, the request returns the fixed "no
  information" answer with no link, as a normal return of the body and not through the
  exception handler. In particular this is so, with a working store and cache, for a
  sector without a topic when the request is offline or the External Refresh Client
  fails.
\<close>

theorem C4_no_topic_is_a_normal_outcome:
  "((async_engine w \<or> fault w CreateEngine = None) \<and> fault w Acquire = None
     \<and> fst (refresh_if_stale s off (snd (get_engine w))) = Inr ()
     \<and> stored (snd (refresh_if_stale s off (snd (get_engine w)))) s = None
     \<and> fault w SelectTopic = None \<longrightarrow>
       fst (content_request q s off w) = Inr (no_information, None)
       \<and> fst (get_advanced_topic_content q s off w) = (no_information, None))
   \<and> (no_faults w \<and> stored w s = None \<and> (off \<or> refresh_fails w s) \<longrightarrow>
       fst (content_request q s off w) = Inr (no_information, None)
       \<and> fst (get_advanced_topic_content q s off w) = (no_information, None))"
proof -
  have a: "fst (content_request q s off w) = Inr (no_information, None)"
    if "no_faults w" "stored w s = None" "off \<or> refresh_fails w s"
  proof -
    let ?w1 = "snd (get_engine w)"
    have rf: "off \<or> refresh_fails ?w1 s"
      using that(3) by (simp add: refresh_fails_def get_engine_frame)
    have f: "fault ?w1 SelectLastUpdate = None" "fault ?w1 RedisSetex = None"
      using that(1) by (simp_all add: no_faults_def get_engine_frame)
    have "stored (snd (refresh_if_stale s off ?w1)) s = None"
      using refresh_if_stale_fails(2)[OF f rf] that(2)
      by (simp add: stored_def get_engine_frame)
    then show ?thesis
      using that(1) refresh_if_stale_fails(1)[OF f rf]
      by (intro content_request_absent) (simp_all add: no_faults_def)
  qed
  show ?thesis
    using a content_request_absent[of w s off q]
    by (simp add: get_content_fst)
qed

theorem C4_no_topic_is_a_normal_outcome_witness:
  "(async_engine example_world \<or> fault example_world CreateEngine = None)
   \<and> fault example_world Acquire = None
   \<and> fst (refresh_if_stale ''chemistry'' False (snd (get_engine example_world))) = Inr ()
   \<and> stored (snd (refresh_if_stale ''chemistry'' False (snd (get_engine example_world))))
        ''chemistry'' = None
   \<and> fault example_world SelectTopic = None
   \<and> no_faults example_world \<and> stored example_world ''chemistry'' = None
   \<and> refresh_fails example_world ''chemistry''
   \<and> fst (content_request ''gravity'' ''chemistry'' False example_world)
       = Inr (no_information, None)
   \<and> fst (get_advanced_topic_content ''gravity'' ''chemistry'' False example_world)
       = (no_information, None)"
proof -
  have h1: "(async_engine example_world \<or> fault example_world CreateEngine = None)
      \<and> fault example_world Acquire = None \<and> fault example_world SelectTopic = None"
    by (simp add: example_defs)
  have h2: "fst (refresh_if_stale ''chemistry'' False (snd (get_engine example_world))) = Inr ()"
    by (simp add: example_defs all_defs)
  have h3: "stored (snd (refresh_if_stale ''chemistry'' False (snd (get_engine example_world))))
        ''chemistry'' = None"
    by (simp add: example_defs all_defs)
  have h4: "no_faults example_world \<and> stored example_world ''chemistry'' = None
      \<and> refresh_fails example_world ''chemistry''"
    by (simp add: example_defs all_defs)
  show ?thesis
    using h1 h2 h3 h4
      C4_no_topic_is_a_normal_outcome[of example_world "''chemistry''" False "''gravity''"]
    by simp
qed

section \<open>Failures inside the request (C5)\<close>

text \<open>
  C5: whatever exception the body of \<open>get_advanced_topic_content\<close> raises, for every
  question, sector, mode and world, the operation returns the text
  "An error occurred: " followed by the message of the exception, with no link. Two
  places where this happens: the engine cannot be created, and no connection can be
  acquired. (An exception here is an instance of \<^verbatim>\<open>Exception\<close>.)
\<close>

theorem C5_failures_become_answers:
  "(fst (content_request q s off w) = Inl e \<longrightarrow>
      fst (get_advanced_topic_content q s off w) = (''An error occurred: '' @ msg e, None))
   \<and> (\<not> async_engine w \<and> fault w CreateEngine = Some e \<longrightarrow>
      fst (get_advanced_topic_content q s off w) = (''An error occurred: '' @ msg e, None))
   \<and> ((async_engine w \<or> fault w CreateEngine = None) \<and> fault w Acquire = Some e \<longrightarrow>
      fst (get_advanced_topic_content q s off w) = (''An error occurred: '' @ msg e, None))"
  using engine_fault[of w e q s off] acquire_fault[of w e q s off]
  by (auto simp: get_content_fst error_answer_def)

theorem C5_failures_become_answers_witness:
  "fst (content_request ''gravity'' ''physics'' False broken_store_world) = Inl connection_refused
   \<and> (async_engine broken_store_world \<or> fault broken_store_world CreateEngine = None)
   \<and> fault broken_store_world Acquire = Some connection_refused
   \<and> fst (get_advanced_topic_content ''gravity'' ''physics'' False broken_store_world)
       = (''An error occurred: '' @ msg connection_refused, None)
   \<and> \<not> async_engine no_engine_world
   \<and> fault no_engine_world CreateEngine = Some connection_refused
   \<and> fst (get_advanced_topic_content ''gravity'' ''physics'' True no_engine_world)
       = (''An error occurred: '' @ msg connection_refused, None)"
proof -
  have h1: "fst (content_request ''gravity'' ''physics'' False broken_store_world)
              = Inl connection_refused"
    by (simp add: broken_store_world_def example_defs all_defs)
  have h2: "(async_engine broken_store_world \<or> fault broken_store_world CreateEngine = None)
      \<and> fault broken_store_world Acquire = Some connection_refused"
    by (simp add: broken_store_world_def example_defs)
  have h3: "\<not> async_engine no_engine_world
      \<and> fault no_engine_world CreateEngine = Some connection_refused"
    by (simp add: no_engine_world_def example_defs)
  show ?thesis
    using h1 h2 h3
      C5_failures_become_answers[of "''gravity''" "''physics''" False broken_store_world
        connection_refused]
      C5_failures_become_answers[of "''gravity''" "''physics''" True no_engine_world
        connection_refused]
    by simp
qed

section \<open>Failures inside the search (C7)\<close>

lemma search_fault:
  assumes "async_engine w \<or> fault w CreateEngine = None"
    and "fault w Acquire = Some e \<or> (fault w Acquire = None \<and> fault w ScanTopics = Some e)"
  shows "fst (advanced_search q p w) = Inl e"
  using assms get_engine_ok[of w]
  by (auto simp: advanced_search_def then_do_unfold[of get_engine] then_do_unfold[of "prim_op Acquire"]
        then_do_unfold[of "prim_op ScanTopics"] prim_op_fst get_engine_frame)

text \<open>
  C7 asks that \<open>advanced_search\<close> catch a failure of the store and return an empty
  result. \<open>advanced_search\<close> has no handler: with a store that refuses connections the
  exception reaches the caller.
\<close>

theorem C7_search_failure_propagates:
  "fst (advanced_search ''gravity'' None broken_store_world) = Inl connection_refused
   \<and> fst (advanced_search ''gravity'' None broken_store_world) \<noteq> Inr []"
  by (simp add: broken_store_world_def example_defs all_defs)

section \<open>Ranked search (C6)\<close>

lemma sorted_reverse_descending:
  "sorted_wrt (\<lambda>a b. f b \<le> f a) (sorted_reverse f xs)"
proof -
  have "sorted (map f (sort_key f (rev xs)))"
    by (rule sorted_sort_key)
  then have "sorted_wrt (\<lambda>a b. f a \<le> f b) (sort_key f (rev xs))"
    by (simp add: sorted_map)
  then show ?thesis
    by (simp add: sorted_reverse_def sorted_wrt_rev)
qed

lemma sorted_reverse_stable:
  "filter (\<lambda>y. f y = k) (sorted_reverse f xs) = filter (\<lambda>y. f y = k) xs"
  by (simp add: sorted_reverse_def sort_key_stable flip: rev_filter)

lemma set_sorted_reverse: "set (sorted_reverse f xs) = set xs"
  by (simp add: sorted_reverse_def)

lemma scan_loop_eq:
  "scan_loop q p ts acc =
     acc @ map (\<lambda>t. (sector t, content t, calculate_relevance_score q (content t) (last_update t) p))
             (filter (\<lambda>t. 0 < calculate_relevance_score q (content t) (last_update t) p) ts)"
  by (induction ts arbitrary: acc) (simp_all add: Let_def)

lemma scan_loop_half:
  "scan_loop q p ts [] = map (\<lambda>t. (sector t, content t, 1 / 2)) ts"
  by (simp add: scan_loop_eq calculate_relevance_score_def)

lemma scan_loop_positive: "r \<in> set (scan_loop q p ts []) \<Longrightarrow> 0 < score r"
  by (auto simp: scan_loop_eq score_def)

lemma sorted_reverse_const:
  assumes "\<forall>x\<in>set xs. f x = k"
  shows "sorted_reverse f xs = xs"
proof -
  have "filter (\<lambda>y. f y = k) (sorted_reverse f xs) = sorted_reverse f xs"
    using assms by (simp add: set_sorted_reverse)
  moreover have "filter (\<lambda>y. f y = k) xs = xs"
    using assms by simp
  ultimately show ?thesis
    using sorted_reverse_stable[of f k xs] by simp
qed

lemma advanced_search_unfold:
  "fst (advanced_search q p w) =
     (case fst (get_engine w) of
        Inl e \<Rightarrow> Inl e
      | Inr _ \<Rightarrow>
          (case fault w Acquire of
             Some e \<Rightarrow> Inl e
           | None \<Rightarrow>
               (case fault w ScanTopics of
                  Some e \<Rightarrow> Inl e
                | None \<Rightarrow> Inr (take 10 (sorted_reverse score (scan_loop q p (topics w) []))))))"
  by (simp add: advanced_search_def then_do_unfold[of get_engine] then_do_unfold[of "prim_op Acquire"]
        then_do_unfold[of "prim_op ScanTopics"] prim_op_fst get_engine_frame
        split: sum.splits option.splits)

lemma advanced_search_result:
  assumes "fst (advanced_search q p w) = Inr res"
  shows "res = take 10 (sorted_reverse score (scan_loop q p (topics w) []))"
  using assms by (simp add: advanced_search_unfold split: sum.splits option.splits)

lemma sorted_wrt_take: "sorted_wrt P xs \<Longrightarrow> sorted_wrt P (take n xs)"
  by (metis append_take_drop_id sorted_wrt_append)

text \<open>
  C6: whenever \<open>advanced_search\<close> returns, for every query, preferences and store, the
  scores of the results do not increase along the sequence, every score is positive, at
  most 10 results are returned, and the results of equal score are the first ones of
  that score in scan order, in scan order. With the placeholder score of
  \<open>calculate_relevance_score\<close> the result is the first 10 rows of the scan.
\<close>

theorem C6_search_is_ranked:
  assumes "fst (advanced_search q p w) = Inr res"
  shows "sorted_wrt (\<lambda>a b. score b \<le> score a) res
     \<and> (\<forall>r\<in>set res. 0 < score r)
     \<and> length res \<le> 10
     \<and> (\<forall>k. prefix (filter (\<lambda>r. score r = k) res)
                    (filter (\<lambda>r. score r = k) (scan_loop q p (topics w) [])))
     \<and> res = take 10 (map (\<lambda>t. (sector t, content t, 1 / 2)) (topics w))"
proof -
  let ?c = "scan_loop q p (topics w) []"
  have res: "res = take 10 (sorted_reverse score ?c)"
    using assms by (rule advanced_search_result)
  have 1: "sorted_wrt (\<lambda>a b. score b \<le> score a) res"
    unfolding res by (intro sorted_wrt_take sorted_reverse_descending)
  have 2: "\<forall>r\<in>set res. 0 < score r"
    unfolding res using scan_loop_positive[of _ q p "topics w"]
    by (auto dest!: in_set_takeD simp: set_sorted_reverse)
  have 3: "length res \<le> 10"
    unfolding res by simp
  have 4: "prefix (filter (\<lambda>r. score r = k) res) (filter (\<lambda>r. score r = k) ?c)" for k
  proof -
    have "prefix (filter (\<lambda>r. score r = k) res) (filter (\<lambda>r. score r = k) (sorted_reverse score ?c))"
      unfolding res by (intro filter_mono_prefix take_is_prefix)
    then show ?thesis by (simp add: sorted_reverse_stable)
  qed
  have "sorted_reverse score ?c = ?c"
    by (rule sorted_reverse_const[of _ _ "1 / 2"]) (auto simp: scan_loop_half score_def)
  then have 5: "res = take 10 (map (\<lambda>t. (sector t, content t, 1 / 2)) (topics w))"
    by (simp add: res scan_loop_half)
  show ?thesis using 1 2 3 4 5 by blast
qed

theorem C6_search_is_ranked_witness:
  "fst (advanced_search ''gravity'' None crowded_world) = Inr (replicate 10 physics_result)
   \<and> sorted_wrt (\<lambda>a b. score b \<le> score a) (replicate 10 physics_result)
   \<and> 0 < score physics_result
   \<and> length (replicate 10 physics_result) \<le> 10
   \<and> length (topics crowded_world) = 11"
proof -
  have h: "fst (advanced_search ''gravity'' None crowded_world) = Inr (replicate 10 physics_result)"
    by code_simp
  have n: "length (topics crowded_world) = 11"
    by (simp add: crowded_world_def)
  have m: "physics_result \<in> set (replicate 10 physics_result)"
    by simp
  show ?thesis
    using h n m C6_search_is_ranked[OF h] by blast
qed

section \<open>Answering from the store\<close>

lemma enrichment_depends:
  assumes "fault w' = fault w" "now w' = now w" "academic_get w' = academic_get w"
    "json_loads w' = json_loads w" "cache w' (academic_key s) = cache w (academic_key s)"
  shows "fst (enrichment s w') = fst (enrichment s w)"
  using assms
  by (simp add: enrichment_def redis_get_def fetch_academic_resources_def redis_setex_def
        Let_def act_defs split: option.splits sum.splits prod.splits)

lemma select_ok:
  "fault w p = None \<Longrightarrow> select_by_sector p s w = (Inr (stored w s), w)"
  by (simp add: select_by_sector_def then_do_def prim_op_def stored_def)

lemma answer_present:
  assumes f: "fault w SelectTopic = None" and st: "stored w s = Some t"
    and en: "fst (enrichment s w) = Inr lines"
  shows "fst (answer_from_store q s False w)
           = Inr (nlp_answer (extend_context (content t) lines) q, Some (further_reading t))"
proof -
  have sel: "select_by_sector SelectTopic s w = (Inr (Some t), w)"
    using select_ok[OF f, of s] st by simp
  have ctx: "fst (build_context s False t w) = Inr (extend_context (content t) lines)"
    using en by (simp add: build_context_def then_do_unfold[of "enrichment s"] ret_def)
  show ?thesis
    using ctx
    by (simp add: answer_from_store_steps then_do_unfold[of "select_by_sector SelectTopic s"] sel
          then_do_unfold[of "build_context s False t"] ret_def)
qed

lemma answer_keeps_topics: "topics (snd (answer_from_store q s off w)) = topics w"
  by (simp add: preservesD[OF preserves_answer_from_store])

lemma refresh_keeps_api_get: "api_get (snd (refresh_if_stale s off w)) = api_get w"
  by (simp add: preservesD[OF preserves_refresh_if_stale])

lemma request_world:
  assumes "async_engine w \<or> fault w CreateEngine = None" and "fault w Acquire = None"
    and "fst (refresh_if_stale s off (snd (get_engine w))) = Inr ()"
  shows "content_request q s off w
           = answer_from_store q s off (snd (refresh_if_stale s off (snd (get_engine w))))"
  using assms by (simp add: content_request_run then_do_unfold[of "refresh_if_stale s off"])

lemma update_topic_success:
  assumes "fault w RedisSetex = None" "fault w UpsertTopic = None"
    and "api_get w s = HttpResponse 200 (Inr d)" and "payload_fields d = Some (c, fr)"
    and "stored w s = None"
  shows "update_topic_from_api s w =
     (Inr (), w\<lparr>net_calls := net_calls w @ [RefreshCall s],
                cache := (cache w)(api_key s \<mapsto> (json_dumps w d, now w + 3600 * usec_per_sec)),
                topics := topics w @ [\<lparr>sector = s, content = c, further_reading = fr,
                                        last_update = now w\<rparr>]\<rparr>)"
  using assms
  by (simp add: update_topic_from_api_def fetch_api_data_def Let_def redis_setex_ok
        upsert_topic_def then_do_def prim_op_def stored_def)

lemma find_append_new:
  "find P xs = None \<Longrightarrow> P x \<Longrightarrow> find P (xs @ [x]) = Some x"
  by (induction xs) (auto split: if_splits)

lemma answer_keeps_api_cache:
  "cache (snd (answer_from_store q s off w)) (api_key s') = cache w (api_key s')"
proof -
  have "preserves (\<lambda>w. cache w (api_key s')) (answer_from_store q s off)"
    by (rule preserves_answer_from_store) (simp_all add: keys_differ keys_differ[symmetric])
  then show ?thesis by (simp add: preserves_def)
qed

lemmas example_text_defs = example_loads_def summaries_text_def summaries_doc_def
  newton_text_def newton_payload_def quoted_def newline_def

section \<open>The context a request builds\<close>

lemma context_present:
  assumes f: "fault w SelectTopic = None" and st: "stored w s = Some t"
    and en: "fst (enrichment s w) = Inr lines"
  shows "fst (context_from_store s False w) = Inr (Some (extend_context (content t) lines, t))"
proof -
  have sel: "select_by_sector SelectTopic s w = (Inr (Some t), w)"
    using select_ok[OF f, of s] st by simp
  have ctx: "fst (build_context s False t w) = Inr (extend_context (content t) lines)"
    using en by (simp add: build_context_def then_do_unfold[of "enrichment s"] ret_def)
  show ?thesis
    using ctx
    by (simp add: context_from_store_def then_do_unfold[of "select_by_sector SelectTopic s"] sel
          then_do_unfold[of "build_context s False t"] ret_def)
qed

lemma preserves_context_from_store:
  assumes c: "\<And>w x. f (w\<lparr>cache := (cache w)(academic_key s \<mapsto> x)\<rparr>) = f w"
    and n: "\<And>w. f (w\<lparr>net_calls := net_calls w @ [EnrichmentCall s]\<rparr>) = f w"
  shows "preserves f (context_from_store s off)"
  unfolding context_from_store_def
  by (auto intro!: preserves_then_do preserves_ret preserves_select
        preserves_build_context[of f, OF c n] split: option.splits)

lemma context_keeps_topics: "topics (snd (context_from_store s off w)) = topics w"
  by (simp add: preservesD[OF preserves_context_from_store])

lemma context_keeps_api_cache:
  "cache (snd (context_from_store s off w)) (api_key s') = cache w (api_key s')"
proof -
  have "preserves (\<lambda>w. cache w (api_key s')) (context_from_store s off)"
    by (rule preserves_context_from_store) (simp_all add: keys_differ keys_differ[symmetric])
  then show ?thesis by (simp add: preserves_def)
qed

lemma content_request_fst:
  "fst (content_request q s off w) =
     (case fst (request_context s off w) of Inl e \<Rightarrow> Inl e | Inr r \<Rightarrow> Inr (respond q r))"
  by (simp add: content_request_def then_do_unfold[of "request_context s off"] ret_def
        split: sum.splits)

lemma content_request_snd:
  "snd (content_request q s off w) = snd (request_context s off w)"
  by (simp add: content_request_def then_do_unfold[of "request_context s off"] ret_def
        split: sum.splits)

lemma request_context_run:
  assumes "async_engine w \<or> fault w CreateEngine = None" and "fault w Acquire = None"
    and "fst (refresh_if_stale s off (snd (get_engine w))) = Inr ()"
  shows "request_context s off w
           = context_from_store s off (snd (refresh_if_stale s off (snd (get_engine w))))"
  using assms get_engine_ok[of w]
  by (simp add: request_context_def then_do_unfold[of get_engine]
        then_do_unfold[of "prim_op Acquire"] then_do_unfold[of "refresh_if_stale s off"]
        prim_op_fst get_engine_frame)

lemma fetch_handled_refresh_failure: "fetch_handled e \<Longrightarrow> refresh_failure e"
  by (auto simp: fetch_handled_def refresh_failure_def)

lemma fetch_api_data_handled:
  assumes "fetch_fails w s"
  shows "fetch_api_data s w = (Inr None, w\<lparr>net_calls := net_calls w @ [RefreshCall s]\<rparr>)"
  using assms
  by (cases "api_get w s")
     (auto simp: fetch_fails_def fetch_api_data_def Let_def fetch_except_def ret_def
        fetch_handled_def split: sum.splits)

lemma update_topic_handled:
  assumes "fetch_fails w s"
  shows "update_topic_from_api s w = (Inr (), w\<lparr>net_calls := net_calls w @ [RefreshCall s]\<rparr>)"
  by (simp add: update_topic_from_api_def fetch_api_data_handled[OF assms])

section \<open>Failed refresh (C3)\<close>

text \<open>
  C3: for every sector with a stored topic and a request that is not offline, with a
  working store and cache, if the External Refresh Client fails (the request raises a
  transport failure or times out, the status is not 200, the body does not decode, or the
  document has not the fields of a payload), the body of the request returns normally.
  When it reaches its \<^verbatim>\<open>return\<close> it holds the stored row, and \<^verbatim>\<open>context\<close> is the stored
  content (followed by the enrichment lines, when the enrichment step yields some); the
  answer is the answerer's text for that context, with the stored further-reading link,
  and the rows of the store are unchanged. For the failures that the handler of
  \<open>fetch_api_data\<close> names (network error, status other than 200, body that does not
  decode), \<open>fetch_api_data\<close> itself returns \<^verbatim>\<open>None\<close> and the refresh changes nothing but
  the log of calls. The enrichment step is assumed not to raise.
\<close>

theorem C3_failed_refresh_keeps_stored_answer:
  assumes nf: "no_faults w" and st: "stored w s = Some t" and rf: "refresh_fails w s"
    and en: "fst (enrichment s w) = Inr lines"
  shows "fst (request_context s False w) = Inr (Some (extend_context (content t) lines, t))
     \<and> fst (content_request q s False w)
           = Inr (nlp_answer (extend_context (content t) lines) q, Some (further_reading t))
     \<and> fst (get_advanced_topic_content q s False w)
           = (nlp_answer (extend_context (content t) lines) q, Some (further_reading t))
     \<and> topics (snd (get_advanced_topic_content q s False w)) = topics w
     \<and> (fetch_fails w s \<longrightarrow>
          fetch_api_data s (snd (get_engine w))
            = (Inr None, (snd (get_engine w))\<lparr>net_calls := net_calls w @ [RefreshCall s]\<rparr>)
          \<and> update_topic_from_api s (snd (get_engine w))
            = (Inr (), (snd (get_engine w))\<lparr>net_calls := net_calls w @ [RefreshCall s]\<rparr>))"
proof -
  let ?w1 = "snd (get_engine w)"
  let ?w2 = "snd (refresh_if_stale s False ?w1)"
  have rf1: "False \<or> refresh_fails ?w1 s"
    using rf by (simp add: refresh_fails_def get_engine_frame)
  have f: "fault ?w1 SelectLastUpdate = None" "fault ?w1 RedisSetex = None"
    using nf by (simp_all add: no_faults_def get_engine_frame)
  have ok: "fst (refresh_if_stale s False ?w1) = Inr ()"
    and tp: "topics ?w2 = topics w"
    using refresh_if_stale_fails[OF f rf1] by (simp_all add: get_engine_frame)
  have run: "request_context s False w = context_from_store s False ?w2"
    using nf ok by (intro request_context_run) (simp_all add: no_faults_def)
  have st2: "stored ?w2 s = Some t"
    using st tp by (simp add: stored_def)
  have en2: "fst (enrichment s ?w2) = Inr lines"
    using en enrichment_depends[of ?w2 w s]
    by (simp add: refresh_if_stale_frame refresh_keeps_academic_cache get_engine_frame)
  have f2: "fault ?w2 SelectTopic = None"
    using nf by (simp add: no_faults_def refresh_if_stale_frame get_engine_frame)
  have c: "fst (request_context s False w) = Inr (Some (extend_context (content t) lines, t))"
    unfolding run by (rule context_present[OF f2 st2 en2])
  have r: "fst (content_request q s False w)
           = Inr (nlp_answer (extend_context (content t) lines) q, Some (further_reading t))"
    by (simp add: content_request_fst c respond_def)
  have k: "topics (snd (content_request q s False w)) = topics w"
    by (simp add: content_request_snd run context_keeps_topics tp)
  have h: "fetch_api_data s ?w1 = (Inr None, ?w1\<lparr>net_calls := net_calls w @ [RefreshCall s]\<rparr>)
      \<and> update_topic_from_api s ?w1
            = (Inr (), ?w1\<lparr>net_calls := net_calls w @ [RefreshCall s]\<rparr>)"
    if "fetch_fails w s"
  proof -
    have "fetch_fails ?w1 s"
      using that by (simp add: fetch_fails_def get_engine_frame)
    then show ?thesis
      using fetch_api_data_handled[of ?w1 s] update_topic_handled[of ?w1 s]
      by (simp add: get_engine_frame)
  qed
  show ?thesis
    using c r k h by (simp add: get_content_fst snd_get_content)
qed

theorem C3_failed_refresh_keeps_stored_answer_witness:
  "no_faults unreachable_world \<and> stored unreachable_world ''physics'' = Some physics_topic
   \<and> refresh_fails unreachable_world ''physics''
   \<and> fetch_fails unreachable_world ''physics''
   \<and> fst (enrichment ''physics'' unreachable_world)
       = Inr (Some (''Kepler'' @ newline @ ''Galileo''))
   \<and> 8 * usec_per_day \<le> now unreachable_world - last_update physics_topic
   \<and> fst (request_context ''physics'' False unreachable_world)
       = Inr (Some (''Stored notes on mechanics'' @ newline @ ''Kepler'' @ newline @ ''Galileo'',
                    physics_topic))
   \<and> fst (get_advanced_topic_content ''gravity'' ''physics'' False unreachable_world)
       = (nlp_answer (''Stored notes on mechanics'' @ newline @ ''Kepler'' @ newline @ ''Galileo'')
            ''gravity'', Some ''http://old'')
   \<and> topics (snd (get_advanced_topic_content ''gravity'' ''physics'' False unreachable_world))
       = [physics_topic]
   \<and> fst (fetch_api_data ''physics'' (snd (get_engine unreachable_world))) = Inr None
   \<and> fst (update_topic_from_api ''physics'' (snd (get_engine unreachable_world))) = Inr ()"
proof -
  have nf: "no_faults unreachable_world"
    by (simp add: unreachable_world_def timeout_world_def example_defs no_faults_def)
  have st: "stored unreachable_world ''physics'' = Some physics_topic"
    by (simp add: unreachable_world_def timeout_world_def example_defs stored_def)
  have rf: "refresh_fails unreachable_world ''physics''"
    by (simp add: unreachable_world_def timeout_world_def example_defs refresh_fails_def
          refresh_failure_def)
  have ff: "fetch_fails unreachable_world ''physics''"
    by (simp add: unreachable_world_def timeout_world_def example_defs fetch_fails_def
          fetch_handled_def)
  have en: "fst (enrichment ''physics'' unreachable_world)
              = Inr (Some (''Kepler'' @ newline @ ''Galileo''))"
    by (simp add: unreachable_world_def timeout_world_def example_defs all_defs
          example_text_defs)
  have age: "8 * usec_per_day \<le> now unreachable_world - last_update physics_topic"
    by (simp add: unreachable_world_def timeout_world_def example_defs usec_per_day_def)
  have tp: "topics unreachable_world = [physics_topic]"
    by (simp add: unreachable_world_def timeout_world_def example_defs)
  have ct: "content physics_topic = ''Stored notes on mechanics''"
    "further_reading physics_topic = ''http://old''"
    by (simp_all add: physics_topic_def)
  note c3 = C3_failed_refresh_keeps_stored_answer[OF nf st rf en, of "''gravity''"]
  from c3 ff have src: "fst (fetch_api_data ''physics'' (snd (get_engine unreachable_world))) = Inr None
      \<and> fst (update_topic_from_api ''physics'' (snd (get_engine unreachable_world))) = Inr ()"
    by simp
  from c3 have res: "fst (request_context ''physics'' False unreachable_world)
         = Inr (Some (extend_context (content physics_topic) (Some (''Kepler'' @ newline @ ''Galileo'')),
                      physics_topic))
      \<and> fst (get_advanced_topic_content ''gravity'' ''physics'' False unreachable_world)
         = (nlp_answer (extend_context (content physics_topic)
                          (Some (''Kepler'' @ newline @ ''Galileo''))) ''gravity'',
            Some (further_reading physics_topic))
      \<and> topics (snd (get_advanced_topic_content ''gravity'' ''physics'' False unreachable_world))
         = topics unreachable_world"
    by blast
  show ?thesis
    using nf st rf ff en age src res by (simp add: extend_context_def ct tp)
qed

section \<open>Successful refresh of an unknown sector (C1)\<close>

text \<open>
  C1: for every sector without a stored topic and a request that is not offline, with a
  working store and cache, when the External Refresh Client answers with status 200 and a
  payload with \<open>content\<close> and \<open>further_reading\<close>, the request leaves in the store a
  topic for the sector with that content and link and \<open>last_update = now\<close>, and leaves in
  the cache under \<open>api_<sector>\<close> the serialised payload expiring one hour from now.
  When the body reaches its \<^verbatim>\<open>return\<close> it holds the new row, and \<^verbatim>\<open>context\<close> is the new
  content (followed by the enrichment lines, when the enrichment step yields some); the
  answer is the answerer's text for that context, with the fetched link. The enrichment
  step is assumed not to raise.
\<close>

theorem C1_refresh_creates_topic:
  assumes nf: "no_faults w" and st: "stored w s = None"
    and api: "api_get w s = HttpResponse 200 (Inr d)" and pf: "payload_fields d = Some (c, fr)"
    and en: "fst (enrichment s w) = Inr lines"
  shows "stored (snd (get_advanced_topic_content q s False w)) s
           = Some \<lparr>sector = s, content = c, further_reading = fr, last_update = now w\<rparr>
     \<and> cache (snd (get_advanced_topic_content q s False w)) (api_key s)
           = Some (json_dumps w d, now w + 3600 * usec_per_sec)
     \<and> fst (request_context s False w)
           = Inr (Some (extend_context c lines,
                        \<lparr>sector = s, content = c, further_reading = fr, last_update = now w\<rparr>))
     \<and> fst (get_advanced_topic_content q s False w)
           = (nlp_answer (extend_context c lines) q, Some fr)"
proof -
  let ?w1 = "snd (get_engine w)"
  let ?new = "\<lparr>sector = s, content = c, further_reading = fr, last_update = now w\<rparr>"
  let ?w2 = "?w1\<lparr>net_calls := net_calls ?w1 @ [RefreshCall s],
                cache := (cache ?w1)(api_key s \<mapsto> (json_dumps w d, now w + 3600 * usec_per_sec)),
                topics := topics ?w1 @ [?new]\<rparr>"
  have up: "update_topic_from_api s ?w1 = (Inr (), ?w2)"
    using update_topic_success[of ?w1 s d c fr] nf st api pf
    by (simp add: no_faults_def get_engine_frame)
  have sf: "should_fetch_from_api s ?w1 = (Inr True, ?w1)"
    using nf st by (simp add: should_fetch_eq no_faults_def get_engine_frame)
  have rs: "refresh_if_stale s False ?w1 = (Inr (), ?w2)"
    by (simp add: refresh_if_stale_def then_do_unfold[of "should_fetch_from_api s"] sf up)
  have run: "request_context s False w = context_from_store s False ?w2"
    using nf request_context_run[of w s False] by (simp add: rs no_faults_def)
  have st2: "stored ?w2 s = Some ?new"
    using st by (simp add: stored_def get_engine_frame find_append_new)
  have en2: "fst (enrichment s ?w2) = Inr lines"
    using en enrichment_depends[of ?w2 w s]
    by (simp add: get_engine_frame keys_differ[symmetric])
  have f2: "fault ?w2 SelectTopic = None"
    using nf by (simp add: no_faults_def get_engine_frame)
  have x: "fst (request_context s False w) = Inr (Some (extend_context c lines, ?new))"
    unfolding run using context_present[OF f2 st2 en2] by simp
  have r: "fst (content_request q s False w) = Inr (nlp_answer (extend_context c lines) q, Some fr)"
    by (simp add: content_request_fst x respond_def)
  have t: "stored (snd (content_request q s False w)) s = Some ?new"
    using st2 by (simp add: content_request_snd run stored_def context_keeps_topics)
  have k: "cache (snd (content_request q s False w)) (api_key s)
             = Some (json_dumps w d, now w + 3600 * usec_per_sec)"
    by (simp add: content_request_snd run context_keeps_api_cache)
  show ?thesis
    using r t k x by (simp add: get_content_fst snd_get_content)
qed

theorem C1_refresh_creates_topic_witness:
  "no_faults newton_world \<and> stored newton_world ''physics'' = None
   \<and> api_get newton_world ''physics'' = HttpResponse 200 (Inr newton_payload)
   \<and> payload_fields newton_payload = Some (''Newton laws'', ''http://x'')
   \<and> fst (enrichment ''physics'' newton_world) = Inr (Some (''Kepler'' @ newline @ ''Galileo''))
   \<and> stored (snd (get_advanced_topic_content ''gravity'' ''physics'' False newton_world)) ''physics''
       = Some \<lparr>sector = ''physics'', content = ''Newton laws'', further_reading = ''http://x'',
               last_update = 5 * usec_per_day\<rparr>
   \<and> cache (snd (get_advanced_topic_content ''gravity'' ''physics'' False newton_world))
         (api_key ''physics'')
       = Some (newton_text, 5 * usec_per_day + 3600 * usec_per_sec)
   \<and> fst (request_context ''physics'' False newton_world)
       = Inr (Some (''Newton laws'' @ newline @ ''Kepler'' @ newline @ ''Galileo'',
                    \<lparr>sector = ''physics'', content = ''Newton laws'', further_reading = ''http://x'',
                     last_update = 5 * usec_per_day\<rparr>))
   \<and> fst (get_advanced_topic_content ''gravity'' ''physics'' False newton_world)
       = (nlp_answer (''Newton laws'' @ newline @ ''Kepler'' @ newline @ ''Galileo'') ''gravity'',
          Some ''http://x'')"
proof -
  have nf: "no_faults newton_world"
    by (simp add: newton_world_def example_defs no_faults_def)
  have st: "stored newton_world ''physics'' = None"
    by (simp add: newton_world_def example_defs stored_def)
  have api: "api_get newton_world ''physics'' = HttpResponse 200 (Inr newton_payload)"
    by (simp add: newton_world_def example_defs)
  have pf: "payload_fields newton_payload = Some (''Newton laws'', ''http://x'')"
    by (simp add: newton_payload_def payload_fields_def)
  have en: "fst (enrichment ''physics'' newton_world)
              = Inr (Some (''Kepler'' @ newline @ ''Galileo''))"
    by (simp add: newton_world_def example_defs all_defs example_text_defs)
  have env: "now newton_world = 5 * usec_per_day"
    "json_dumps newton_world newton_payload = newton_text"
    by (simp_all add: newton_world_def example_defs example_dumps_def summaries_doc_def
          newton_payload_def)
  show ?thesis
    using nf st api pf en env
      C1_refresh_creates_topic[OF nf st api pf en, of "''gravity''"]
    by (simp add: extend_context_def)
qed

section \<open>Cached enrichment (C9)\<close>

lemma redis_get_fst:
  "fst (redis_get k w) =
     (case fault w RedisGet of
        Some e \<Rightarrow> Inl e
      | None \<Rightarrow> Inr (case cache w k of None \<Rightarrow> None
                    | Some (v, expiry) \<Rightarrow> if now w < expiry then Some v else None))"
  by (simp add: redis_get_def then_do_def prim_op_def split: option.splits)

lemma snd_redis_get [simp]: "snd (redis_get k w) = w"
  by (simp add: redis_get_def then_do_def prim_op_def split: option.splits)

lemma enrichment_hit:
  assumes "fault w RedisGet = None" and "cache w (academic_key s) = Some (text, expiry)"
    and "now w < expiry"
  shows "enrichment s w =
     ((if text = [] then Inr None
       else case json_loads w text of
              Inl e \<Rightarrow> Inl e
            | Inr doc \<Rightarrow> (case joined_summaries doc of Inl e \<Rightarrow> Inl e | Inr l \<Rightarrow> Inr (Some l))), w)"
  using assms
  by (simp add: enrichment_def redis_get_def act_defs split: sum.splits)

lemma enrichment_miss:
  assumes "fault w RedisGet = None" and "fault w RedisSetex = None"
    and "fst (redis_get (academic_key s) w) = Inr None"
    and "academic_get w s = Some text"
  shows "enrichment s w =
     ((if text = [] then Inr None
       else case json_loads w text of
              Inl e \<Rightarrow> Inl e
            | Inr doc \<Rightarrow> (case joined_summaries doc of Inl e \<Rightarrow> Inl e | Inr l \<Rightarrow> Inr (Some l))),
      w\<lparr>net_calls := net_calls w @ [EnrichmentCall s],
        cache := (cache w)(academic_key s \<mapsto> (text, now w + 3600 * usec_per_sec))\<rparr>)"
proof -
  have g: "redis_get (academic_key s) w = (Inr None, w)"
    using assms(3) by (simp add: prod_eq_iff)
  show ?thesis
    using assms(1,2,4)
    by (simp add: enrichment_def then_do_unfold[of "redis_get (academic_key s)"] g
          fetch_academic_resources_def Let_def redis_setex_ok act_defs split: sum.splits)
qed

lemma enrichment_hit_no_call:
  assumes "cache w (academic_key s) = Some (text, expiry)" and "now w < expiry"
  shows "enrichment_calls (snd (enrichment s w)) = enrichment_calls w"
  using assms
  by (simp add: enrichment_def redis_get_def act_defs split: sum.splits option.splits)

lemma select_unfold:
  "select_by_sector p s w = (case fault w p of Some e \<Rightarrow> Inl e | None \<Rightarrow> Inr (stored w s), w)"
  by (simp add: select_by_sector_def then_do_def prim_op_def stored_def split: option.splits)

lemma answer_hit_no_call:
  assumes "cache w (academic_key s) = Some (text, expiry)" and "now w < expiry"
  shows "enrichment_calls (snd (answer_from_store q s off w)) = enrichment_calls w"
  using enrichment_hit_no_call[OF assms]
  by (simp add: answer_from_store_steps build_context_def snd_then_do select_unfold ret_def
        split: option.splits sum.splits)

lemma request_hit_no_call:
  assumes c: "cache w (academic_key s) = Some (text, expiry)" and n: "now w < expiry"
  shows "enrichment_calls (snd (get_advanced_topic_content q s off w)) = enrichment_calls w"
proof -
  let ?w1 = "snd (get_engine w)"
  let ?w2 = "snd (refresh_if_stale s off ?w1)"
  have e1: "enrichment_calls ?w1 = enrichment_calls w"
    by (simp add: enrichment_calls_def get_engine_frame)
  have e2: "enrichment_calls ?w2 = enrichment_calls w"
    by (simp add: refresh_if_stale_frame e1)
  have "cache ?w2 (academic_key s) = Some (text, expiry)" "now ?w2 < expiry"
    using c n by (simp_all add: refresh_keeps_academic_cache refresh_if_stale_frame get_engine_frame)
  then have e3: "enrichment_calls (snd (answer_from_store q s off ?w2)) = enrichment_calls w"
    using answer_hit_no_call[of ?w2 s "text" expiry q off] e2 by simp
  show ?thesis
    using e1 e2 e3
    by (simp add: snd_get_content content_request_unfold snd_then_do
          split: sum.splits option.splits)
qed

lemma collect_summaries_strings:
  "map subscript_summary items = map (\<lambda>x. Inr (JStr x)) xs \<Longrightarrow>
   collect_summaries items = Inr (map JStr xs)"
  by (induction items arbitrary: xs) auto

lemma str_items_strings: "str_items i (map JStr xs) = Inr xs"
  by (induction xs arbitrary: i) auto

lemma joined_summaries_strings:
  "map subscript_summary items = map (\<lambda>x. Inr (JStr x)) xs \<Longrightarrow>
   joined_summaries (JArr items) = Inr (join newline xs)"
  by (simp add: joined_summaries_def collect_summaries_strings str_items_strings)

lemma build_context_unfold:
  "build_context s False t w =
     (case fst (enrichment s w) of Inl e \<Rightarrow> Inl e | Inr l \<Rightarrow> Inr (extend_context (content t) l),
      snd (enrichment s w))"
  by (simp add: build_context_def then_do_unfold[of "enrichment s"] ret_def split: sum.splits)

text \<open>
  C9: let a request miss the cache for \<open>academic_<S>\<close> and the Enrichment Client
  answer; this stores the answer under that key for one hour and records one call. In
  any later world \<open>w2\<close> that still holds that entry, less than one hour after the fetch,
  the enrichment step reads the cached text, yields what the first step yielded (so the
  context is extended by the same summaries, one per line, in the order received) and
  leaves the world as it is; the whole request makes no call to the Enrichment Client.
\<close>

theorem C9_cached_enrichment_is_reused:
  assumes g: "fault w RedisGet = None" and x: "fault w RedisSetex = None"
    and miss: "fst (redis_get (academic_key s) w) = Inr None"
    and ok: "academic_get w s = Some text"
    and c2: "cache w2 (academic_key s) = cache (snd (enrichment s w)) (academic_key s)"
    and t2: "now w2 < now w + 3600 * usec_per_sec"
    and j2: "json_loads w2 = json_loads w" and g2: "fault w2 RedisGet = None"
  shows "cache (snd (enrichment s w)) (academic_key s) = Some (text, now w + 3600 * usec_per_sec)
     \<and> enrichment_calls (snd (enrichment s w)) = enrichment_calls w @ [EnrichmentCall s]
     \<and> enrichment s w2 = (fst (enrichment s w), w2)
     \<and> build_context s False t w2 = (fst (build_context s False t w), w2)
     \<and> enrichment_calls (snd (get_advanced_topic_content q s off w2)) = enrichment_calls w2
     \<and> (\<forall>items xs. text \<noteq> [] \<and> json_loads w text = Inr (JArr items)
            \<and> map subscript_summary items = map (\<lambda>x. Inr (JStr x)) xs \<longrightarrow>
          fst (build_context s False t w2) = Inr (content t @ newline @ join newline xs))"
proof -
  note first = enrichment_miss[OF g x miss ok]
  have c: "cache (snd (enrichment s w)) (academic_key s) = Some (text, now w + 3600 * usec_per_sec)"
    by (simp add: first)
  have n: "enrichment_calls (snd (enrichment s w)) = enrichment_calls w @ [EnrichmentCall s]"
    by (simp add: first)
  have hit: "cache w2 (academic_key s) = Some (text, now w + 3600 * usec_per_sec)"
    using c2 c by simp
  note second = enrichment_hit[OF g2 hit t2]
  have e: "enrichment s w2 = (fst (enrichment s w), w2)"
    by (simp add: first second j2)
  have b: "build_context s False t w2 = (fst (build_context s False t w), w2)"
    by (simp add: build_context_unfold e)
  have r: "enrichment_calls (snd (get_advanced_topic_content q s off w2)) = enrichment_calls w2"
    by (rule request_hit_no_call[OF hit t2])
  have l: "fst (build_context s False t w2) = Inr (content t @ newline @ join newline xs)"
    if "text \<noteq> []" "json_loads w text = Inr (JArr items)"
      "map subscript_summary items = map (\<lambda>x. Inr (JStr x)) xs" for items xs
    using that joined_summaries_strings[OF that(3)]
    by (simp add: build_context_unfold second j2 extend_context_def)
  show ?thesis
    using c n e b r l by blast
qed

theorem C9_cached_enrichment_is_reused_witness:
  "fault enriching_world RedisGet = None \<and> fault enriching_world RedisSetex = None
   \<and> fst (redis_get (academic_key ''physics'') enriching_world) = Inr None
   \<and> academic_get enriching_world ''physics'' = Some summaries_text
   \<and> cache half_hour_later_world (academic_key ''physics'')
       = cache (snd (enrichment ''physics'' enriching_world)) (academic_key ''physics'')
   \<and> now half_hour_later_world < now enriching_world + 3600 * usec_per_sec
   \<and> json_loads half_hour_later_world = json_loads enriching_world
   \<and> fault half_hour_later_world RedisGet = None
   \<and> academic_get half_hour_later_world ''physics'' = None
   \<and> json_loads enriching_world summaries_text = Inr summaries_doc
   \<and> fst (build_context ''physics'' False physics_topic half_hour_later_world)
       = Inr (''Stored notes on mechanics'' @ newline @ ''Kepler'' @ newline @ ''Galileo'')
   \<and> fst (build_context ''physics'' False physics_topic half_hour_later_world)
       = fst (build_context ''physics'' False physics_topic enriching_world)
   \<and> enrichment_calls (snd (enrichment ''physics'' enriching_world)) = [EnrichmentCall ''physics'']
   \<and> enrichment_calls (snd (get_advanced_topic_content ''gravity'' ''physics'' False
                              half_hour_later_world)) = []"
proof -
  have g: "fault enriching_world RedisGet = None" and x: "fault enriching_world RedisSetex = None"
    and ok: "academic_get enriching_world ''physics'' = Some summaries_text"
    by (simp_all add: enriching_world_def example_defs)
  have miss: "fst (redis_get (academic_key ''physics'') enriching_world) = Inr None"
    by (simp add: enriching_world_def example_defs redis_get_fst)
  have c2: "cache half_hour_later_world (academic_key ''physics'')
       = cache (snd (enrichment ''physics'' enriching_world)) (academic_key ''physics'')"
    by (simp add: enrichment_miss[OF g x miss ok])
       (simp add: half_hour_later_world_def enriching_world_def example_defs academic_key_def)
  have t2: "now half_hour_later_world < now enriching_world + 3600 * usec_per_sec"
    by (simp add: half_hour_later_world_def enriching_world_def example_defs usec_per_sec_def)
  have j2: "json_loads half_hour_later_world = json_loads enriching_world"
    and g2: "fault half_hour_later_world RedisGet = None"
    and a2: "academic_get half_hour_later_world ''physics'' = None"
    by (simp_all add: half_hour_later_world_def enriching_world_def example_defs)
  have d: "json_loads enriching_world summaries_text = Inr summaries_doc"
    by (simp add: enriching_world_def example_defs example_loads_def)
  have ne: "summaries_text \<noteq> []"
    by (simp add: summaries_text_def)
  have items: "map subscript_summary [JObj [(''summary'', JStr ''Kepler'')],
                                      JObj [(''summary'', JStr ''Galileo'')]]
                 = map (\<lambda>x. Inr (JStr x)) [''Kepler'', ''Galileo'']"
    by simp
  have e0: "enrichment_calls enriching_world = []" "enrichment_calls half_hour_later_world = []"
    by (simp_all add: half_hour_later_world_def enriching_world_def example_defs
          enrichment_calls_def)
  note c9 = C9_cached_enrichment_is_reused[OF g x miss ok c2 t2 j2 g2,
      of physics_topic "''gravity''" False]
  have d': "json_loads enriching_world summaries_text
              = Inr (JArr [JObj [(''summary'', JStr ''Kepler'')], JObj [(''summary'', JStr ''Galileo'')]])"
    using d by (simp add: summaries_doc_def)
  from c9 have "\<forall>items xs. summaries_text \<noteq> []
      \<and> json_loads enriching_world summaries_text = Inr (JArr items)
      \<and> map subscript_summary items = map (\<lambda>x. Inr (JStr x)) xs \<longrightarrow>
      fst (build_context ''physics'' False physics_topic half_hour_later_world)
        = Inr (content physics_topic @ newline @ join newline xs)"
    by blast
  then have "fst (build_context ''physics'' False physics_topic half_hour_later_world)
        = Inr (content physics_topic @ newline @ join newline [''Kepler'', ''Galileo''])"
    using ne d' items by blast
  then have ctx: "fst (build_context ''physics'' False physics_topic half_hour_later_world)
       = Inr (''Stored notes on mechanics'' @ newline @ ''Kepler'' @ newline @ ''Galileo'')"
    by (simp add: physics_topic_def)
  from c9 have same: "fst (build_context ''physics'' False physics_topic half_hour_later_world)
       = fst (build_context ''physics'' False physics_topic enriching_world)"
    by simp
  from c9 have n1: "enrichment_calls (snd (enrichment ''physics'' enriching_world))
       = enrichment_calls enriching_world @ [EnrichmentCall ''physics'']"
    by blast
  from c9 have n2: "enrichment_calls (snd (get_advanced_topic_content ''gravity'' ''physics'' False
                              half_hour_later_world)) = enrichment_calls half_hour_later_world"
    by blast
  show ?thesis
    using g x miss ok c2 t2 j2 g2 a2 d ctx same n1 n2 by (simp add: e0)
qed

section \<open>The refresh entries of the cache are never read (C10)\<close>

lemma ignores_apiD:
  "ignores_api m \<Longrightarrow> api_equiv w1 w2 \<Longrightarrow> fst (m w1) = fst (m w2) \<and> api_equiv (snd (m w1)) (snd (m w2))"
  by (simp add: ignores_api_def)

lemma ignores_api_then_do:
  assumes m: "ignores_api m" and f: "\<And>x. ignores_api (f x)"
  shows "ignores_api (then_do m f)"
proof -
  have "fst (then_do m f w1) = fst (then_do m f w2)
        \<and> api_equiv (snd (then_do m f w1)) (snd (then_do m f w2))"
    if e: "api_equiv w1 w2" for w1 w2
  proof -
    note r = ignores_apiD[OF m e]
    show ?thesis
    proof (cases "fst (m w2)")
      case (Inl x)
      with r show ?thesis by (simp add: then_do_unfold[of m])
    next
      case (Inr x)
      with r ignores_apiD[OF f[of x], of "snd (m w1)" "snd (m w2)"] show ?thesis
        by (simp add: then_do_unfold[of m])
    qed
  qed
  then show ?thesis by (simp add: ignores_api_def)
qed

lemma ignores_api_ret: "ignores_api (ret x)"
  by (simp add: ignores_api_def ret_def)

lemma ignores_api_lift: "ignores_api (lift r)"
  by (simp add: ignores_api_def lift_def)

lemma ignores_api_prim_op: "ignores_api (prim_op p)"
  by (auto simp: ignores_api_def prim_op_def api_equiv_def split: option.splits)

lemma academic_not_api: "\<not> is_api_key (academic_key s)"
  by (simp add: is_api_key_def academic_key_def)

lemma ignores_api_redis_get: "\<not> is_api_key k \<Longrightarrow> ignores_api (redis_get k)"
  unfolding redis_get_def
  by (intro ignores_api_then_do ignores_api_prim_op) (auto simp: ignores_api_def api_equiv_def split: option.splits)

lemma ignores_api_redis_setex: "ignores_api (redis_setex k ttl v)"
  unfolding redis_setex_def
  by (intro ignores_api_then_do ignores_api_prim_op) (simp add: ignores_api_def api_equiv_def)

lemma ignores_api_get_engine: "ignores_api get_engine"
  by (auto simp: ignores_api_def get_engine_def init_async_db_def act_defs api_equiv_def
        split: option.splits)

lemma ignores_api_select: "ignores_api (select_by_sector p s)"
  unfolding select_by_sector_def
  by (intro ignores_api_then_do ignores_api_prim_op) (simp add: ignores_api_def api_equiv_def)

lemma ignores_api_should_fetch: "ignores_api (should_fetch_from_api s)"
  unfolding should_fetch_from_api_def
  by (intro ignores_api_then_do ignores_api_select) (auto simp: ignores_api_def api_equiv_def split: option.splits)

lemma ignores_api_fetch_except: "ignores_api (fetch_except e)"
  by (simp add: ignores_api_def fetch_except_def ret_def raise_def)

lemma api_equiv_log:
  "api_equiv w1 w2 \<Longrightarrow> api_equiv (w1\<lparr>net_calls := net_calls w1 @ [c]\<rparr>) (w2\<lparr>net_calls := net_calls w2 @ [c]\<rparr>)"
  by (simp add: api_equiv_def)

lemma ignores_api_fetch_api_data: "ignores_api (fetch_api_data s)"
proof -
  have "fst (fetch_api_data s w1) = fst (fetch_api_data s w2)
        \<and> api_equiv (snd (fetch_api_data s w1)) (snd (fetch_api_data s w2))"
    if e: "api_equiv w1 w2" for w1 w2
  proof -
    let ?v1 = "w1\<lparr>net_calls := net_calls w1 @ [RefreshCall s]\<rparr>"
    let ?v2 = "w2\<lparr>net_calls := net_calls w2 @ [RefreshCall s]\<rparr>"
    have v: "api_equiv ?v1 ?v2" using e by (rule api_equiv_log)
    have a: "api_get w1 = api_get w2" "json_dumps w1 = json_dumps w2"
      using e by (simp_all add: api_equiv_def)
    note x = ignores_apiD[OF ignores_api_fetch_except v]
    note r = ignores_apiD[OF ignores_api_redis_setex v, of "api_key s" 3600]
    show ?thesis
    proof (cases "api_get w2 s")
      case (HttpRaises ex)
      with a x[of ex] show ?thesis
        by (simp add: fetch_api_data_def Let_def)
    next
      case (HttpResponse status body)
      show ?thesis
      proof (cases "status = 200")
        case False
        with HttpResponse a x show ?thesis
          by (simp add: fetch_api_data_def Let_def)
      next
        case True
        show ?thesis
        proof (cases body)
          case (Inl ex)
          with True HttpResponse a x[of ex] show ?thesis
            by (simp add: fetch_api_data_def Let_def)
        next
          case (Inr d)
          obtain r1 u1 where s1: "redis_setex (api_key s) 3600 (json_dumps w2 d) ?v1 = (r1, u1)"
            by force
          obtain r2 u2 where s2: "redis_setex (api_key s) 3600 (json_dumps w2 d) ?v2 = (r2, u2)"
            by force
          have ru: "r1 = r2" "api_equiv u1 u2"
            using r[of "json_dumps w2 d"] s1 s2 by simp_all
          show ?thesis
            using True HttpResponse Inr a s1 s2 ru
              ignores_apiD[OF ignores_api_fetch_except ru(2)]
            by (cases r2) (simp_all add: fetch_api_data_def Let_def)
        qed
      qed
    qed
  qed
  then show ?thesis by (simp add: ignores_api_def)
qed

lemma ignores_api_upsert_topic: "ignores_api (upsert_topic s c fr)"
  unfolding upsert_topic_def
  by (intro ignores_api_then_do ignores_api_prim_op) (simp add: ignores_api_def api_equiv_def)

lemma ignores_api_update_topic: "ignores_api (update_topic_from_api s)"
proof -
  have "fst (update_topic_from_api s w1) = fst (update_topic_from_api s w2)
        \<and> api_equiv (snd (update_topic_from_api s w1)) (snd (update_topic_from_api s w2))"
    if e: "api_equiv w1 w2" for w1 w2
  proof -
    obtain r1 u1 where f1: "fetch_api_data s w1 = (r1, u1)" by force
    obtain r2 u2 where f2: "fetch_api_data s w2 = (r2, u2)" by force
    have ru: "r1 = r2" "api_equiv u1 u2"
      using ignores_apiD[OF ignores_api_fetch_api_data e, of s] f1 f2 by simp_all
    show ?thesis
      using f1 f2 ru ignores_apiD[OF ignores_api_upsert_topic ru(2)]
      by (simp add: update_topic_from_api_def split: sum.splits option.splits prod.splits)
  qed
  then show ?thesis by (simp add: ignores_api_def)
qed

lemma ignores_api_refresh_if_stale: "ignores_api (refresh_if_stale s off)"
  unfolding refresh_if_stale_def
  by (auto intro!: ignores_api_then_do ignores_api_should_fetch ignores_api_ret ignores_api_update_topic)

lemma ignores_api_fetch_academic: "ignores_api (fetch_academic_resources s)"
proof -
  have "fst (fetch_academic_resources s w1) = fst (fetch_academic_resources s w2)
        \<and> api_equiv (snd (fetch_academic_resources s w1)) (snd (fetch_academic_resources s w2))"
    if e: "api_equiv w1 w2" for w1 w2
  proof -
    let ?v1 = "w1\<lparr>net_calls := net_calls w1 @ [EnrichmentCall s]\<rparr>"
    let ?v2 = "w2\<lparr>net_calls := net_calls w2 @ [EnrichmentCall s]\<rparr>"
    have v: "api_equiv ?v1 ?v2" using e by (rule api_equiv_log)
    have a: "academic_get w1 = academic_get w2"
      using e by (simp add: api_equiv_def)
    have r: "ignores_api (then_do (redis_setex (academic_key s) 3600 v) (\<lambda>_. ret (Some v)))" for v
      by (intro ignores_api_then_do ignores_api_redis_setex ignores_api_ret)
    show ?thesis
      using a v ignores_apiD[OF r v]
      by (simp add: fetch_academic_resources_def Let_def split: option.splits)
  qed
  then show ?thesis by (simp add: ignores_api_def)
qed

lemma ignores_api_loads: "ignores_api (\<lambda>w. (json_loads w v, w))"
  by (simp add: ignores_api_def api_equiv_def)

lemma ignores_api_enrichment: "ignores_api (enrichment s)"
  unfolding enrichment_def
  by (auto intro!: ignores_api_then_do ignores_api_redis_get academic_not_api ignores_api_ret
        ignores_api_fetch_academic ignores_api_loads ignores_api_lift split: option.splits)

lemma ignores_api_build_context: "ignores_api (build_context s off t)"
  unfolding build_context_def
  by (auto intro!: ignores_api_then_do ignores_api_ret ignores_api_enrichment)

lemma ignores_api_answer_from_store: "ignores_api (answer_from_store q s off)"
  unfolding answer_from_store_steps
  by (auto intro!: ignores_api_then_do ignores_api_ret ignores_api_select ignores_api_build_context
        split: option.splits)

lemma ignores_api_content_request: "ignores_api (content_request q s off)"
  unfolding content_request_steps
  by (intro ignores_api_then_do ignores_api_get_engine ignores_api_prim_op ignores_api_refresh_if_stale
        ignores_api_answer_from_store)

lemma ignores_api_scan: "ignores_api (\<lambda>w. (Inr (take 10 (sorted_reverse score (scan_loop q p (topics w) []))), w))"
  by (simp add: ignores_api_def api_equiv_def)

lemma ignores_api_advanced_search: "ignores_api (advanced_search q p)"
  unfolding advanced_search_def
  by (intro ignores_api_then_do ignores_api_get_engine ignores_api_prim_op ignores_api_scan)

text \<open>
  C10: two worlds that agree on everything except the cache entries whose key starts
  with \<open>api_\<close> give the same answer and link to every content request and the same
  results to every search, and the worlds the two runs leave behind again differ in such
  entries only, so that the same holds for every later request.
\<close>

theorem C10_refresh_cache_entries_are_never_read:
  assumes "api_equiv w1 w2"
  shows "fst (get_advanced_topic_content q s off w1) = fst (get_advanced_topic_content q s off w2)
     \<and> api_equiv (snd (get_advanced_topic_content q s off w1))
                 (snd (get_advanced_topic_content q s off w2))
     \<and> fst (advanced_search q p w1) = fst (advanced_search q p w2)
     \<and> api_equiv (snd (advanced_search q p w1)) (snd (advanced_search q p w2))"
  using ignores_apiD[OF ignores_api_content_request assms, of q s off]
    ignores_apiD[OF ignores_api_advanced_search assms, of q p]
  by (simp add: get_content_fst snd_get_content)

theorem C10_refresh_cache_entries_are_never_read_witness:
  "cache timeout_world ''api_physics'' = None
   \<and> cache timeout_world_api ''api_physics'' = Some (newton_text, 11 * usec_per_day)
   \<and> fst (get_advanced_topic_content ''gravity'' ''physics'' False timeout_world)
       = fst (get_advanced_topic_content ''gravity'' ''physics'' False timeout_world_api)
   \<and> fst (advanced_search ''gravity'' None timeout_world)
       = fst (advanced_search ''gravity'' None timeout_world_api)"
proof -
  have e: "api_equiv timeout_world timeout_world_api"
    by (auto simp: api_equiv_def timeout_world_api_def is_api_key_def)
  have c: "cache timeout_world ''api_physics'' = None"
    "cache timeout_world_api ''api_physics'' = Some (newton_text, 11 * usec_per_day)"
    by (simp_all add: timeout_world_api_def timeout_world_def example_defs)
  show ?thesis
    using c C10_refresh_cache_entries_are_never_read[OF e, of "''gravity''" "''physics''" False None]
    by simp
qed

end
